theory Spec2Isabelle
  imports Complex_Main
begin

section \<open>Python values and exceptions\<close>

text \<open>
  The program is \<^verbatim>\<open>run_multi.py\<close>: the noise injector \<^verbatim>\<open>mask_tokens\<close> and the
  orchestrator \<^verbatim>\<open>main\<close>. Python integers are \<^typ>\<open>int\<close>, Python floats are taken as
  \<^typ>\<open>real\<close> (only their order and the comparison with zero are used; NaN is not
  modelled), and every exception the modelled code can raise is a value of
  \<open>py_error\<close>; a function that can raise returns \<open>py_error + 'a\<close>.
\<close>

datatype py_error =
    ZeroDivisionError
  | ValueError string
  | FileNotFoundError string
  | AssertionError
  | RuntimeError
  | TypeError
  | IndexError
  | KeyError string

section \<open>Checkpoint retention (main, lines 435--441)\<close>

text \<open>
  \<^verbatim>\<open>
  torch.save(model_to_save.state_dict(), output_model_file)
  best_result.append((result["eval_f1"], output_model_file))
  best_result.sort(key=lambda x: x[0], reverse=True)
  if len(best_result) > 3:
      _, model_to_remove = best_result.pop()
      os.remove(model_to_remove)
  \<close>
  The state is the list \<^verbatim>\<open>best_result\<close> and the set of files that exist on storage.
  \<^verbatim>\<open>list.sort\<close> is stable, also with \<^verbatim>\<open>reverse=True\<close>: the list is reversed, sorted
  ascending by the stable sort, and reversed again.
\<close>

type_synonym checkpoint = "real \<times> string"

record pool_state =
  best_result :: "checkpoint list"
  storage :: "string set"

definition sort_reverse :: "checkpoint list \<Rightarrow> checkpoint list" where
  "sort_reverse xs = rev (sort_key fst (rev xs))"

definition torch_save :: "string \<Rightarrow> string set \<Rightarrow> string set" where
  "torch_save path files = insert path files"

definition os_remove :: "string \<Rightarrow> string set \<Rightarrow> py_error + string set" where
  "os_remove path files =
     (if path \<in> files then Inr (files - {path}) else Inl (FileNotFoundError path))"

text \<open>The list after \<^verbatim>\<open>append\<close> and \<^verbatim>\<open>sort\<close>, before the length test.\<close>

definition ranked :: "'a pool_state_scheme \<Rightarrow> checkpoint \<Rightarrow> checkpoint list" where
  "ranked s c = sort_reverse (best_result s @ [c])"

definition retain_checkpoint ::
  "checkpoint \<Rightarrow> 'a pool_state_scheme \<Rightarrow> py_error + 'a pool_state_scheme" where
  "retain_checkpoint c s =
     (let files = torch_save (snd c) (storage s);
          l = ranked s c
      in if length l > 3
         then (let model_to_remove = snd (last l)
               in case os_remove model_to_remove files of
                    Inl e \<Rightarrow> Inl e
                  | Inr files' \<Rightarrow> Inr (s\<lparr>best_result := butlast l, storage := files'\<rparr>))
         else Inr (s\<lparr>best_result := l, storage := files\<rparr>))"

text \<open>A sequence of evaluation rounds, each saving and inserting one checkpoint.\<close>

fun retain_all ::
  "checkpoint list \<Rightarrow> 'a pool_state_scheme \<Rightarrow> py_error + 'a pool_state_scheme" where
  "retain_all [] s = Inr s"
| "retain_all (c # cs) s =
     (case retain_checkpoint c s of Inl e \<Rightarrow> Inl e | Inr s' \<Rightarrow> retain_all cs s')"

section \<open>The noise injector \<^verbatim>\<open>mask_tokens\<close> (lines 25--49)\<close>

text \<open>
  A rank-2 tensor is the list of its rows, a rank-1 tensor a list. The tensors the
  caller passes (\<^verbatim>\<open>inputs\<close>, \<^verbatim>\<open>targets\<close>, \<^verbatim>\<open>task_ids\<close>) are objects that the function
  could mutate, so they live in a store and are passed by address; \<^verbatim>\<open>clone\<close> allocates a
  new cell. The tensors the function builds for itself and never hands out
  (\<^verbatim>\<open>probability_matrix\<close>, the masks) are values. The \<^verbatim>\<open>device\<close> argument only places
  tensors and is left out.

  Two tensors combine elementwise only when their sizes agree. Sizes that torch would
  reconcile by broadcasting a dimension of size 1 are treated as a size error here: the
  caller passes the tensors of one batch, whose sizes agree.
\<close>

datatype tensor = Long1 "int list" | Long2 "int list list"

type_synonym store = "tensor list"
type_synonym addr = nat

text \<open>
  The tokenizer collaborator: \<^verbatim>\<open>get_special_tokens_mask(row,
  already_has_special_tokens=True)\<close>, one flag per token of the row, and the id of
  \<^verbatim>\<open>tokenizer.mask_token\<close>.
\<close>

record tokenizer =
  get_special_tokens_mask :: "int list \<Rightarrow> bool list"
  mask_token_id :: int

definition full :: "'a list list \<Rightarrow> real \<Rightarrow> real list list" where
  "full shape v = map (map (\<lambda>_. v)) shape"

text \<open>\<^verbatim>\<open>task_ids.unsqueeze(dim=-1).expand(inputs_shape)\<close>: row \<open>i\<close> repeats \<open>task_ids[i]\<close>.\<close>

definition expand :: "int list \<Rightarrow> 'a list list \<Rightarrow> py_error + int list list" where
  "expand ids shape =
     (if length ids = length shape
      then Inr (map2 (\<lambda>t row. map (\<lambda>_. t) row) ids shape)
      else Inl RuntimeError)"

definition masked_fill ::
  "real list list \<Rightarrow> bool list list \<Rightarrow> real \<Rightarrow> py_error + real list list" where
  "masked_fill m c v =
     (if map length c = map length m
      then Inr (map2 (map2 (\<lambda>p b. if b then v else p)) m c)
      else Inl RuntimeError)"

definition tensor_ne :: "int list list \<Rightarrow> int list list \<Rightarrow> py_error + bool list list" where
  "tensor_ne a b =
     (if map length a = map length b
      then Inr (map2 (map2 (\<lambda>x y. x \<noteq> y)) a b)
      else Inl RuntimeError)"

definition tensor_eq :: "int list list \<Rightarrow> int list list \<Rightarrow> py_error + bool list list" where
  "tensor_eq a b =
     (if map length a = map length b
      then Inr (map2 (map2 (\<lambda>x y. x = y)) a b)
      else Inl RuntimeError)"

text \<open>
  \<^verbatim>\<open>torch.bernoulli(probability_matrix)\<close> refuses a probability outside \<open>[0, 1]\<close>. The
  outcome at a position is 0 when the probability there is 0, 1 when it is 1, and
  otherwise either: \<open>coin i j\<close> is what the random source gives at row \<open>i\<close>, column
  \<open>j\<close>, and a statement for every \<open>coin\<close> is a statement for every outcome of the draws.
\<close>

definition bernoulli ::
  "(nat \<Rightarrow> nat \<Rightarrow> bool) \<Rightarrow> real list list \<Rightarrow> py_error + bool list list" where
  "bernoulli coin pm =
     (if list_all (list_all (\<lambda>p. 0 \<le> p \<and> p \<le> 1)) pm
      then Inr (map (\<lambda>(i, row).
                  map (\<lambda>(j, p). if p = 0 then False else if p = 1 then True else coin i j)
                    (enumerate 0 row))
                (enumerate 0 pm))
      else Inl RuntimeError)"

text \<open>\<^verbatim>\<open>inputs[masked_indices] = v\<close> on the contents of a tensor.\<close>

definition index_put :: "int list list \<Rightarrow> bool list list \<Rightarrow> int \<Rightarrow> int list list" where
  "index_put m idx v = map2 (map2 (\<lambda>x b. if b then v else x)) m idx"

definition bind_err :: "py_error + 'a \<Rightarrow> ('a \<Rightarrow> py_error + 'b) \<Rightarrow> py_error + 'b" where
  "bind_err r f = (case r of Inl e \<Rightarrow> Inl e | Inr x \<Rightarrow> f x)"

text \<open>
  Lines 28--46, on the contents of the tensors: the variable \<^verbatim>\<open>masked_indices\<close>.
  \<^verbatim>\<open>task_ids_expand != csc_task_matrix\<close> compares each entry with 1.
\<close>

definition mode_filter ::
  "string \<Rightarrow> real list list \<Rightarrow> int list list \<Rightarrow> int list list \<Rightarrow> py_error + real list list"
  where
  "mode_filter mask_mode pm inputs targets =
     (if mask_mode = ''noerror''
      then bind_err (tensor_ne inputs targets) (\<lambda>d. masked_fill pm d 0)
      else if mask_mode = ''error''
      then bind_err (tensor_eq inputs targets) (\<lambda>d. masked_fill pm d 0)
      else if mask_mode = ''all'' then Inr pm
      else Inl AssertionError)"

definition masked_indices ::
  "tokenizer \<Rightarrow> int list list \<Rightarrow> int list list \<Rightarrow> int list \<Rightarrow> string \<Rightarrow> real
     \<Rightarrow> (nat \<Rightarrow> nat \<Rightarrow> bool) \<Rightarrow> py_error + bool list list" where
  "masked_indices tok inputs targets task_ids mask_mode noise_probability coin =
     bind_err (expand task_ids inputs) (\<lambda>task_ids_expand.
     bind_err (masked_fill (full inputs noise_probability)
                 (map (map (\<lambda>t. t \<noteq> 1)) task_ids_expand) 0) (\<lambda>pm1.
     bind_err (masked_fill pm1 (map (get_special_tokens_mask tok) inputs) 0) (\<lambda>pm2.
     bind_err (mode_filter mask_mode pm2 inputs targets) (\<lambda>pm3.
     bernoulli coin pm3))))"

definition clone :: "store \<Rightarrow> addr \<Rightarrow> store \<times> addr" where
  "clone st a = (st @ [st ! a], length st)"

text \<open>
  The whole function. After line 27 the name \<^verbatim>\<open>inputs\<close> is the clone, which is what
  the later lines read and line 47 writes. The result is the address of the clone.
\<close>

definition mask_tokens ::
  "store \<Rightarrow> addr \<Rightarrow> addr \<Rightarrow> addr \<Rightarrow> tokenizer \<Rightarrow> string \<Rightarrow> real
     \<Rightarrow> (nat \<Rightarrow> nat \<Rightarrow> bool) \<Rightarrow> py_error + (store \<times> addr)" where
  "mask_tokens st inputs targets task_ids tok mask_mode noise_probability coin =
     (let (st1, inputs') = clone st inputs
      in case (st1 ! inputs', st1 ! targets, st1 ! task_ids) of
           (Long2 iv, Long2 tv, Long1 kv) \<Rightarrow>
             bind_err (masked_indices tok iv tv kv mask_mode noise_probability coin) (\<lambda>mi.
               Inr (st1[inputs' := Long2 (index_put iv mi (mask_token_id tok))], inputs'))
         | _ \<Rightarrow> Inl TypeError)"

section \<open>The training loop (main, lines 291--469)\<close>

text \<open>
  The options of the command line that the orchestrator reads. \<^verbatim>\<open>task_names\<close> and
  \<^verbatim>\<open>train_on_list\<close> are the lists \<^verbatim>\<open>args.task_name.lower().split()\<close> and
  \<^verbatim>\<open>args.train_on.lower().split()\<close> of lines 157--158. \<^verbatim>\<open>max_train_steps\<close> is \<^verbatim>\<open>None\<close>
  unless it is given.
\<close>

record args =
  data_dir :: string
  task_names :: "string list"
  train_on_list :: "string list"
  eval_on :: string
  test_on :: string
  do_train :: bool
  do_eval :: bool
  do_test :: bool
  max_seq_length :: int
  train_batch_size :: int
  eval_batch_size :: int
  num_train_epochs :: real
  max_train_steps :: "int option"
  gradient_accumulation_steps :: int
  save_steps :: int
  print_para_names :: bool

text \<open>
  The task table of lines 127--136: \<^verbatim>\<open>processors_all\<close> and \<^verbatim>\<open>task_class\<close>.
\<close>

datatype processor = SighanProcessor | EcspellProcessor | TnewsProcessor | AfqmcProcessor

definition processors_all :: "(string \<times> processor) list" where
  "processors_all =
     [(''sighan'', SighanProcessor), (''ecspell'', EcspellProcessor),
      (''sghspell'', SighanProcessor), (''tnews'', TnewsProcessor),
      (''afqmc'', AfqmcProcessor)]"

definition task_class_csc :: "string list" where
  "task_class_csc = [''sighan'', ''ecspell'', ''sghspell'']"

definition task_class_seq :: "string list" where
  "task_class_seq = [''tnews'', ''afqmc'']"

text \<open>
  What the orchestrator calls and does not define: the readers and converters of
  \<^verbatim>\<open>multiTask.MultiTaskDataset\<close>, the data loader, the model and the metrics. Each is
  a parameter. A reader or converter call is also written to a log of calls, so that
  which data was loaded, and in what order, can be stated.
  \<^item> \<^verbatim>\<open>dataloader_len n b\<close>: building a \<^verbatim>\<open>TensorDataset\<close>, a \<^verbatim>\<open>RandomSampler\<close> and a
    \<^verbatim>\<open>DataLoader\<close> over \<open>n\<close> features with batch size \<open>b\<close> gives a loader of that
    many batches, or raises;
  \<^item> \<^verbatim>\<open>forward_backward epoch step\<close>: lines 300--336 of one micro-batch (noise
    injection, forward and backward pass), which change no state of the model here and
    may raise;
  \<^item> \<^verbatim>\<open>csc_compute epoch step\<close> and \<^verbatim>\<open>seq_metrics epoch step\<close>: the metrics that the
    evaluation round run in that micro-batch computes, \<^verbatim>\<open>(p, r, f1, fpr)\<close> and
    \<^verbatim>\<open>(f1, acc)\<close>; \<^verbatim>\<open>test_csc_compute\<close> and \<^verbatim>\<open>test_seq_metrics\<close> those of the final test;
  \<^item> \<^verbatim>\<open>output_model_file global_step f1\<close>: the path of line 434.
  Loading the tokenizer and the model, creating the output directory, and writing the
  files \<^verbatim>\<open>train_args.bin\<close> and \<^verbatim>\<open>sents.*\<close> are taken to return and are not part of
  the state.
\<close>

record ('ex, 'lab, 'f) collaborators =
  get_train_examples :: "processor \<Rightarrow> string \<Rightarrow> string \<Rightarrow> 'ex list"
  get_test_examples :: "processor \<Rightarrow> string \<Rightarrow> string \<Rightarrow> 'ex list"
  get_label_list :: "'ex list \<Rightarrow> 'lab list"
  csc_convert_examples_to_features :: "'ex list \<Rightarrow> int \<Rightarrow> 'f list"
  seq_convert_examples_to_features :: "'ex list \<Rightarrow> 'lab list \<Rightarrow> int \<Rightarrow> 'f list"
  dataloader_len :: "nat \<Rightarrow> int \<Rightarrow> py_error + nat"
  forward_backward :: "nat \<Rightarrow> nat \<Rightarrow> py_error option"
  csc_compute :: "nat \<Rightarrow> nat \<Rightarrow> real \<times> real \<times> real \<times> real"
  seq_metrics :: "nat \<Rightarrow> nat \<Rightarrow> real \<times> real"
  test_csc_compute :: "real \<times> real \<times> real \<times> real"
  test_seq_metrics :: "real \<times> real"
  output_model_file :: "int \<Rightarrow> real \<Rightarrow> string"

text \<open>
  The variables of \<^verbatim>\<open>main\<close> that the loop reads: \<^verbatim>\<open>task_name\<close> as line 262 sets it,
  and the numbers of batches of \<^verbatim>\<open>train_dataloader\<close> and \<^verbatim>\<open>eval_dataloader\<close>.
\<close>

record main_locals =
  task_name :: string
  train_dataloader :: nat
  eval_dataloader :: nat

text \<open>
  The state the loop changes: the pool and the storage, \<^verbatim>\<open>global_step\<close>, \<^verbatim>\<open>wrap\<close>, the
  number of calls of \<^verbatim>\<open>optimizer.step()\<close> (under \<^verbatim>\<open>fp16\<close>, of
  \<^verbatim>\<open>scaler.step(optimizer)\<close>), and the lines appended to \<^verbatim>\<open>eval_results.txt\<close>. A line is
  in the format of the CSC family (step, precision, recall, F1, false positive rate) or
  of the SEQ family (step, F1, accuracy).
\<close>

datatype result_line = CscLine int real real real real | SeqLine int real real

record train_state = pool_state +
  global_step :: int
  optimizer_steps :: nat
  wrap :: bool
  eval_results :: "result_line list"

text \<open>
  Line 337: \<^verbatim>\<open>(step + 1) % args.gradient_accumulation_steps == 0 or step ==
  len(train_dataloader) - 1\<close>. Python's \<^verbatim>\<open>%\<close> on integers is \<open>mod\<close> on \<^typ>\<open>int\<close> and
  raises for a zero divisor.
\<close>

definition update_due :: "args \<Rightarrow> main_locals \<Rightarrow> nat \<Rightarrow> py_error + bool" where
  "update_due a loc step =
     (if gradient_accumulation_steps a = 0 then Inl ZeroDivisionError
      else Inr ((int step + 1) mod gradient_accumulation_steps a = 0
                \<or> int step = int (train_dataloader loc) - 1))"

text \<open>Lines 338--347: the optimizer steps and \<^verbatim>\<open>global_step += 1\<close>.\<close>

definition optimizer_update :: "train_state \<Rightarrow> train_state" where
  "optimizer_update s =
     s\<lparr>optimizer_steps := Suc (optimizer_steps s), global_step := global_step s + 1\<rparr>"

text \<open>
  Lines 350--465, one evaluation round. The asserts of lines 385 and 395, the divisions
  of lines 390 and 391 (\<^verbatim>\<open>train_loss / global_step\<close> and \<^verbatim>\<open>eval_loss / eval_steps\<close>), the
  checkpoint of lines 433--441 and the line appended to \<^verbatim>\<open>eval_results.txt\<close>.
\<close>

definition evaluation ::
  "('ex, 'lab, 'f) collaborators \<Rightarrow> main_locals \<Rightarrow> nat \<Rightarrow> nat \<Rightarrow> train_state
     \<Rightarrow> py_error + train_state" where
  "evaluation C loc epoch step s =
     (let csc = task_name loc \<in> set task_class_csc;
          seq = task_name loc \<in> set task_class_seq
      in if 0 < eval_dataloader loc \<and> \<not> csc \<and> \<not> seq then Inl AssertionError
         else if global_step s = 0 then Inl ZeroDivisionError
         else if eval_dataloader loc = 0 then Inl ZeroDivisionError
         else if csc then
           (case csc_compute C epoch step of (p, r, f1, fpr) \<Rightarrow>
              bind_err (retain_checkpoint
                          (f1 * 100, output_model_file C (global_step s) (f1 * 100)) s)
                (\<lambda>s'. Inr (s'\<lparr>eval_results := eval_results s' @
                         [CscLine (global_step s) (p * 100) (r * 100) (f1 * 100)
                            (fpr * 100)]\<rparr>)))
         else if seq then
           (case seq_metrics C epoch step of (f1, acc) \<Rightarrow>
              bind_err (retain_checkpoint
                          (f1 * 100, output_model_file C (global_step s) (f1 * 100)) s)
                (\<lambda>s'. Inr (s'\<lparr>eval_results := eval_results s' @
                         [SeqLine (global_step s) (f1 * 100) (acc * 100)]\<rparr>)))
         else Inl AssertionError)"

text \<open>Line 349: \<^verbatim>\<open>args.do_eval and global_step % args.save_steps == 0\<close>.\<close>

definition eval_due :: "args \<Rightarrow> train_state \<Rightarrow> py_error + bool" where
  "eval_due a s =
     (if \<not> do_eval a then Inr False
      else if save_steps a = 0 then Inl ZeroDivisionError
      else Inr (global_step s mod save_steps a = 0))"

text \<open>Lines 300--465: the body of the inner loop up to the stopping test.\<close>

definition micro_batch ::
  "('ex, 'lab, 'f) collaborators \<Rightarrow> args \<Rightarrow> main_locals \<Rightarrow> nat \<Rightarrow> nat \<Rightarrow> train_state
     \<Rightarrow> py_error + train_state" where
  "micro_batch C a loc epoch step s =
     (case forward_backward C epoch step of
        Some e \<Rightarrow> Inl e
      | None \<Rightarrow>
          bind_err (update_due a loc step) (\<lambda>due.
          let s1 = (if due then optimizer_update s else s)
          in bind_err (eval_due a s1) (\<lambda>ev.
             if ev then evaluation C loc epoch step s1 else Inr s1)))"

text \<open>
  Lines 467--469: \<^verbatim>\<open>if global_step >= args.max_train_steps: wrap = True; break\<close>.
  Comparing with \<^verbatim>\<open>None\<close> raises.
\<close>

definition reached_max :: "args \<Rightarrow> train_state \<Rightarrow> py_error + bool" where
  "reached_max a s =
     (case max_train_steps a of
        None \<Rightarrow> Inl TypeError
      | Some m \<Rightarrow> Inr (m \<le> global_step s))"

text \<open>The inner loop, over the batch indices that remain in the epoch.\<close>

fun batch_loop ::
  "('ex, 'lab, 'f) collaborators \<Rightarrow> args \<Rightarrow> main_locals \<Rightarrow> nat \<Rightarrow> nat list \<Rightarrow> train_state
     \<Rightarrow> py_error + train_state" where
  "batch_loop C a loc epoch [] s = Inr s"
| "batch_loop C a loc epoch (step # steps) s =
     bind_err (micro_batch C a loc epoch step s) (\<lambda>s'.
     bind_err (reached_max a s') (\<lambda>stop.
     if stop then Inr (s'\<lparr>wrap := True\<rparr>) else batch_loop C a loc epoch steps s'))"

text \<open>The outer loop, over the epochs that remain: \<^verbatim>\<open>if wrap: break\<close>, then the batches.\<close>

fun epoch_loop ::
  "('ex, 'lab, 'f) collaborators \<Rightarrow> args \<Rightarrow> main_locals \<Rightarrow> nat list \<Rightarrow> train_state
     \<Rightarrow> py_error + train_state" where
  "epoch_loop C a loc [] s = Inr s"
| "epoch_loop C a loc (epoch # epochs) s =
     (if wrap s then Inr s
      else bind_err (batch_loop C a loc epoch [0..<train_dataloader loc] s)
             (epoch_loop C a loc epochs))"

text \<open>\<^verbatim>\<open>int(x)\<close> of a float: towards zero.\<close>

definition py_int :: "real \<Rightarrow> int" where
  "py_int x = (if 0 \<le> x then \<lfloor>x\<rfloor> else \<lceil>x\<rceil>)"

text \<open>
  Lines 291--469. \<^verbatim>\<open>tqdm(range(args.max_train_steps))\<close> raises on \<^verbatim>\<open>None\<close>; the loop
  starts with \<^verbatim>\<open>global_step = 0\<close>, an empty \<^verbatim>\<open>best_result\<close> and \<^verbatim>\<open>wrap = False\<close>, on the
  storage and the results file as they are.
\<close>

definition initial_state :: "string set \<Rightarrow> result_line list \<Rightarrow> train_state" where
  "initial_state files results =
     \<lparr>best_result = [], storage = files, global_step = 0, optimizer_steps = 0,
      wrap = False, eval_results = results\<rparr>"

definition training ::
  "('ex, 'lab, 'f) collaborators \<Rightarrow> args \<Rightarrow> main_locals \<Rightarrow> string set \<Rightarrow> result_line list
     \<Rightarrow> py_error + train_state" where
  "training C a loc files results =
     (case max_train_steps a of
        None \<Rightarrow> Inl TypeError
      | Some m \<Rightarrow>
          epoch_loop C a loc [0..<nat (py_int (num_train_epochs a))]
            (initial_state files results))"

section \<open>The orchestrator \<^verbatim>\<open>main\<close> (lines 143--608)\<close>

text \<open>
  The calls of readers and converters that a run makes, with their arguments, in order.
  A function that may call them returns the calls it made beside its result, also when
  it raises.
\<close>

datatype ('ex, 'lab) call =
    GetTrainExamples processor string string
  | GetTestExamples processor string string
  | CscConvert "'ex list" int
  | SeqConvert "'ex list" "'lab list" int

definition then_calls ::
  "'c list \<times> (py_error + 'a) \<Rightarrow> ('a \<Rightarrow> 'c list \<times> (py_error + 'b)) \<Rightarrow> 'c list \<times> (py_error + 'b)"
  where
  "then_calls m f =
     (case m of
        (cs, Inl e) \<Rightarrow> (cs, Inl e)
      | (cs, Inr x) \<Rightarrow> (case f x of (cs', r) \<Rightarrow> (cs @ cs', r)))"

text \<open>\<^verbatim>\<open>os.path.join\<close> of two components, on a POSIX system.\<close>

definition path_join :: "string \<Rightarrow> string \<Rightarrow> string" where
  "path_join a b =
     (if b \<noteq> [] \<and> hd b = CHR ''/'' then b
      else if a = [] \<or> last a = CHR ''/'' then a @ b
      else a @ ''/'' @ b)"

text \<open>Lines 159--161: the first name that is not a key of \<^verbatim>\<open>processors_all\<close> raises.\<close>

fun check_task_names :: "string list \<Rightarrow> py_error + unit" where
  "check_task_names [] = Inr ()"
| "check_task_names (t # ts) =
     (if map_of processors_all t = None then Inl (ValueError (''Task not found: '' @ t))
      else check_task_names ts)"

text \<open>
  A Python dictionary filled by assignments keeps each key at the place of its first
  assignment and the value of its last. Lines 163--166 build \<^verbatim>\<open>processors\<close>, a list of
  pairs in the order of \<^verbatim>\<open>processors.items()\<close>; lines 167--168 build
  \<^verbatim>\<open>train_on_dataset\<close>, looked up with \<open>map_of\<close>.
\<close>

definition dict_keys :: "string list \<Rightarrow> string list" where
  "dict_keys ts = rev (remdups (rev ts))"

fun build_processors :: "string list \<Rightarrow> py_error + (string \<times> processor) list" where
  "build_processors [] = Inr []"
| "build_processors (t # ts) =
     (case map_of processors_all t of
        None \<Rightarrow> Inl (KeyError t)
      | Some p \<Rightarrow> bind_err (build_processors ts) (\<lambda>ps. Inr ((t, p) # ps)))"

definition train_on_dataset :: "args \<Rightarrow> (string \<times> string) list" where
  "train_on_dataset a = rev (map (\<lambda>(train_on, t). (t, train_on))
                               (zip (train_on_list a) (task_names a)))"

text \<open>
  Lines 143--168: the batch size per micro-batch (\<^verbatim>\<open>//\<close> raises for a zero divisor),
  the check of the task names, the processors.
\<close>

definition startup :: "args \<Rightarrow> py_error + (args \<times> (string \<times> processor) list)" where
  "startup a =
     (if gradient_accumulation_steps a = 0 then Inl ZeroDivisionError
      else let a1 = a\<lparr>train_batch_size := train_batch_size a div gradient_accumulation_steps a\<rparr>
           in bind_err (check_task_names (task_names a1)) (\<lambda>_.
              bind_err (build_processors (dict_keys (task_names a1))) (\<lambda>processors.
              Inr (a1, processors))))"

text \<open>
  Lines 182--188, and again 265--270 and 474--479: the features of the examples of one
  task, by the family of the task. For a task of the SEQ family the label list is
  computed from the examples that are being converted.
\<close>

definition convert_examples ::
  "('ex, 'lab, 'f) collaborators \<Rightarrow> args \<Rightarrow> string \<Rightarrow> 'ex list
     \<Rightarrow> ('ex, 'lab) call list \<times> (py_error + 'f list)" where
  "convert_examples C a t examples =
     (if t \<in> set task_class_csc
      then ([CscConvert examples (max_seq_length a)],
            Inr (csc_convert_examples_to_features C examples (max_seq_length a)))
      else if t \<in> set task_class_seq
      then (let label_list = get_label_list C examples
            in ([SeqConvert examples label_list (max_seq_length a)],
                Inr (seq_convert_examples_to_features C examples label_list
                       (max_seq_length a))))
      else ([], Inl AssertionError))"

text \<open>Lines 179--188: the loop over \<^verbatim>\<open>processors.items()\<close>, collecting the features.\<close>

fun train_features ::
  "('ex, 'lab, 'f) collaborators \<Rightarrow> args \<Rightarrow> (string \<times> processor) list
     \<Rightarrow> ('ex, 'lab) call list \<times> (py_error + 'f list)" where
  "train_features C a [] = ([], Inr [])"
| "train_features C a ((t, processor) # rest) =
     (case map_of (train_on_dataset a) t of
        None \<Rightarrow> ([], Inl (KeyError t))
      | Some train_on \<Rightarrow>
          (let dir = path_join (data_dir a) t;
               examples = get_train_examples C processor dir train_on
           in then_calls ([GetTrainExamples processor dir train_on], Inr ()) (\<lambda>_.
              then_calls (convert_examples C a t examples) (\<lambda>fs.
              then_calls (train_features C a rest) (\<lambda>fs'.
              ([], Inr (fs @ fs')))))))"

text \<open>
  Lines 203--207: the number of updates per epoch, and the step budget from the epochs
  or the epochs from the step budget. The divisions and the product are those of the
  reals; the rounding of floats is not modelled.
\<close>

definition step_budget :: "args \<Rightarrow> nat \<Rightarrow> py_error + args" where
  "step_budget a len =
     (let num_update_steps_per_epoch =
            \<lceil>real len / real_of_int (gradient_accumulation_steps a)\<rceil>
      in case max_train_steps a of
           None \<Rightarrow>
             Inr (a\<lparr>max_train_steps :=
                     Some (py_int (num_train_epochs a * real_of_int num_update_steps_per_epoch))\<rparr>)
         | Some m \<Rightarrow>
             if num_update_steps_per_epoch = 0 then Inl ZeroDivisionError
             else Inr (a\<lparr>num_train_epochs :=
                          real_of_int \<lceil>real_of_int m / real_of_int num_update_steps_per_epoch\<rceil>\<rparr>))"

text \<open>
  Lines 262--283, and again 471--492 with \<^verbatim>\<open>args.test_on\<close>: the first task, its
  processor, its examples of the given split, their features, the loader. The result is
  \<^verbatim>\<open>task_name\<close> and the number of batches.
\<close>

definition load_eval_data ::
  "('ex, 'lab, 'f) collaborators \<Rightarrow> args \<Rightarrow> (string \<times> processor) list \<Rightarrow> string
     \<Rightarrow> ('ex, 'lab) call list \<times> (py_error + string \<times> nat)" where
  "load_eval_data C a processors split =
     (case task_names a of
        [] \<Rightarrow> ([], Inl IndexError)
      | t # _ \<Rightarrow>
          (case map_of processors t of
             None \<Rightarrow> ([], Inl (KeyError t))
           | Some processor \<Rightarrow>
               (let dir = path_join (data_dir a) t;
                    eval_examples = get_test_examples C processor dir split
                in then_calls ([GetTestExamples processor dir split], Inr ()) (\<lambda>_.
                   then_calls (convert_examples C a t eval_examples) (\<lambda>eval_features.
                   ([], bind_err (dataloader_len C (length eval_features) (eval_batch_size a))
                          (\<lambda>n. Inr (t, n))))))))"

text \<open>
  Without \<^verbatim>\<open>do_eval\<close> the variable \<^verbatim>\<open>task_name\<close> is what the loop of line 179 left in
  it, the last key of \<^verbatim>\<open>processors\<close>; the training loop does not read it then.
\<close>

definition last_task :: "(string \<times> processor) list \<Rightarrow> string" where
  "last_task processors = (case rev processors of [] \<Rightarrow> [] | (t, _) # _ \<Rightarrow> t)"

text \<open>
  Lines 176--469, the two blocks guarded by \<^verbatim>\<open>args.do_train\<close>. The result says whether
  \<^verbatim>\<open>main\<close> returned at line 235 (\<^verbatim>\<open>print_para_names\<close>), and gives the storage and the
  results file.
\<close>

definition train_phase ::
  "('ex, 'lab, 'f) collaborators \<Rightarrow> args \<Rightarrow> (string \<times> processor) list \<Rightarrow> string set
     \<Rightarrow> result_line list
     \<Rightarrow> ('ex, 'lab) call list \<times> (py_error + bool \<times> string set \<times> result_line list)" where
  "train_phase C a processors files results =
     then_calls (train_features C a processors) (\<lambda>fs.
     then_calls ([], dataloader_len C (length fs) (train_batch_size a)) (\<lambda>len.
     then_calls ([], step_budget a len) (\<lambda>a2.
     if print_para_names a2 then ([], Inr (True, files, results))
     else then_calls
            (if do_eval a2 then load_eval_data C a2 processors (eval_on a2)
             else ([], Inr (last_task processors, 0))) (\<lambda>(t, n).
          ([], bind_err
                 (training C a2
                    \<lparr>task_name = t, train_dataloader = len, eval_dataloader = n\<rparr>
                    files results)
                 (\<lambda>s. Inr (False, storage s, eval_results s)))))))"

text \<open>
  Lines 510--608: the test round. The assert of line 542, the division of line 547, the
  metrics and the line appended to \<^verbatim>\<open>eval_results.txt\<close>, with \<open>-1\<close> for the step.
\<close>

definition test_round ::
  "('ex, 'lab, 'f) collaborators \<Rightarrow> string \<Rightarrow> nat \<Rightarrow> result_line list
     \<Rightarrow> py_error + result_line list" where
  "test_round C t n results =
     (let csc = t \<in> set task_class_csc; seq = t \<in> set task_class_seq
      in if 0 < n \<and> \<not> csc \<and> \<not> seq then Inl AssertionError
         else if n = 0 then Inl ZeroDivisionError
         else if csc then
           (case test_csc_compute C of (p, r, f1, fpr) \<Rightarrow>
              Inr (results @ [CscLine (- 1) (p * 100) (r * 100) (f1 * 100) (fpr * 100)]))
         else if seq then
           (case test_seq_metrics C of (f1, acc) \<Rightarrow>
              Inr (results @ [SeqLine (- 1) (f1 * 100) (acc * 100)]))
         else Inl AssertionError)"

text \<open>Lines 470--608, the block guarded by \<^verbatim>\<open>args.do_test\<close>.\<close>

definition test_phase ::
  "('ex, 'lab, 'f) collaborators \<Rightarrow> args \<Rightarrow> (string \<times> processor) list \<Rightarrow> string set
     \<Rightarrow> result_line list
     \<Rightarrow> ('ex, 'lab) call list \<times> (py_error + string set \<times> result_line list)" where
  "test_phase C a processors files results =
     then_calls (load_eval_data C a processors (test_on a)) (\<lambda>(t, n).
     ([], bind_err (test_round C t n results) (\<lambda>results'. Inr (files, results'))))"

text \<open>
  The whole of \<^verbatim>\<open>main\<close>, on a storage and a results file: the calls made, and the error
  raised or the storage and the results file at the end.
\<close>

definition main ::
  "('ex, 'lab, 'f) collaborators \<Rightarrow> args \<Rightarrow> string set \<Rightarrow> result_line list
     \<Rightarrow> ('ex, 'lab) call list \<times> (py_error + string set \<times> result_line list)" where
  "main C a files results =
     then_calls ([], startup a) (\<lambda>(a1, processors).
     then_calls
       (if do_train a1 then train_phase C a1 processors files results
        else ([], Inr (False, files, results))) (\<lambda>(returned, files1, results1).
     if returned then ([], Inr (files1, results1))
     else if do_test a1 then test_phase C a1 processors files1 results1
     else ([], Inr (files1, results1))))"

text \<open>The family whose format a line of the results file has.\<close>

fun is_csc_line :: "result_line \<Rightarrow> bool" where
  "is_csc_line (CscLine _ _ _ _ _) = True"
| "is_csc_line (SeqLine _ _ _) = False"

section \<open>Concrete collaborators, for evaluating the orchestrator\<close>

text \<open>
  Modelled from the spec: \<^verbatim>\<open>InputExample.get_label_list\<close> is not among the sources.
  The spec calls it ``a label vocabulary built from the training label set''. Here an
  example is a pair of a text and a label, and the list is the labels of the examples,
  each once, in the order of their first occurrence.
\<close>

definition label_list_of :: "(string \<times> string) list \<Rightarrow> string list" where
  "label_list_of examples = dict_keys (map snd examples)"

text \<open>
  Readers that return two training examples (labels \<open>a\<close> and \<open>b\<close>) and one test example
  (label \<open>b\<close>) for every task, converters that give one feature per example, a loader
  with one example per batch, a model whose passes return, and fixed metrics.
\<close>

definition demo_collaborators :: "(string \<times> string, string, nat) collaborators" where
  "demo_collaborators =
     \<lparr>get_train_examples = (\<lambda>p d t. [(''x1'', ''a''), (''x2'', ''b'')]),
      get_test_examples = (\<lambda>p d t. [(''y1'', ''b'')]),
      get_label_list = label_list_of,
      csc_convert_examples_to_features = (\<lambda>xs n. map (\<lambda>_. 1) xs),
      seq_convert_examples_to_features = (\<lambda>xs ls n. map (\<lambda>_. 0) xs),
      dataloader_len = (\<lambda>n b. Inr n),
      forward_backward = (\<lambda>epoch step. None),
      csc_compute = (\<lambda>epoch step. (1 / 2, 1 / 2, 1 / 2, 0)),
      seq_metrics = (\<lambda>epoch step. (1 / 2, 1 / 2)),
      test_csc_compute = (1 / 2, 1 / 2, 1 / 2, 0),
      test_seq_metrics = (1 / 2, 1 / 2),
      output_model_file = (\<lambda>g f. ''step-'' @ replicate (nat g) CHR ''I'' @ ''.bin'')\<rparr>"

definition demo_args :: args where
  "demo_args =
     \<lparr>data_dir = ''data/'', task_names = [''tnews'', ''sighan''],
      train_on_list = [''base'', ''hybrid''], eval_on = ''15'', test_on = ''15'',
      do_train = True, do_eval = True, do_test = True, max_seq_length = 64,
      train_batch_size = 128, eval_batch_size = 512, num_train_epochs = 1,
      max_train_steps = Some 2, gradient_accumulation_steps = 1, save_steps = 1,
      print_para_names = False\<rparr>"

definition demo_locals :: main_locals where
  "demo_locals = \<lparr>task_name = ''tnews'', train_dataloader = 4, eval_dataloader = 1\<rparr>"

text \<open>
  The states of the loop on these collaborators after its first and after its second
  micro-batch, each with an update and an evaluation round.
\<close>

definition demo_after_first :: train_state where
  "demo_after_first =
     \<lparr>best_result = [(50, ''step-I.bin'')], storage = {''step-I.bin''},
      global_step = 1, optimizer_steps = 1, wrap = False,
      eval_results = [SeqLine 1 50 50]\<rparr>"

definition demo_after_second :: train_state where
  "demo_after_second =
     \<lparr>best_result = [(50, ''step-I.bin''), (50, ''step-II.bin'')],
      storage = {''step-I.bin'', ''step-II.bin''},
      global_step = 2, optimizer_steps = 2, wrap = False,
      eval_results = [SeqLine 1 50 50, SeqLine 2 50 50]\<rparr>"

text \<open>A tokenizer and a store holding one batch, for evaluating the injector.\<close>

definition demo_tokenizer :: tokenizer where
  "demo_tokenizer =
     \<lparr>get_special_tokens_mask = map (\<lambda>t. t = 101 \<or> t = 102 \<or> t = 0), mask_token_id = 103\<rparr>"

definition demo_store :: store where
  "demo_store =
     [Long2 [[101, 5, 8, 102], [101, 9, 9, 102]],
      Long2 [[101, 5, 7, 102], [3, - 100, - 100, - 100]],
      Long1 [1, 0]]"

section \<open>Properties of the checkpoint pool\<close>


lemma length_sort_reverse: "length (sort_reverse xs) = length xs"
  by (simp add: sort_reverse_def)

lemma set_sort_reverse: "set (sort_reverse xs) = set xs"
  by (simp add: sort_reverse_def)

lemma length_ranked: "length (ranked s c) = Suc (length (best_result s))"
  by (simp add: ranked_def length_sort_reverse)







text \<open>
  The only way an insertion fails is \<^verbatim>\<open>os.remove\<close> on a file that is no longer there,
  which needs two pool entries with one path. When the files of the pool are all on
  storage, the insertion returns.
\<close>

lemma retain_checkpoint_returns:
  assumes "snd ` set (best_result s) \<subseteq> storage s"
  shows "\<exists>s'. retain_checkpoint c s = Inr s'"
proof -
  have "ranked s c \<noteq> []"
    using length_ranked [of s c] by auto
  then have "last (ranked s c) \<in> set (ranked s c)"
    by (rule last_in_set)
  then have "last (ranked s c) \<in> insert c (set (best_result s))"
    by (simp add: ranked_def set_sort_reverse)
  then have "snd (last (ranked s c)) \<in> insert (snd c) (snd ` set (best_result s))"
    by auto
  with assms have "snd (last (ranked s c)) \<in> torch_save (snd c) (storage s)"
    by (auto simp: torch_save_def)
  then show ?thesis
    by (simp add: retain_checkpoint_def Let_def os_remove_def)
qed



text \<open>
  Claim C9. Checkpoints with F1 values 80, 85, 70, 90 are saved and inserted in that
  order, whatever their paths and whatever was on storage before. All four rounds
  return; the final pool is the entries with F1 90, 85 and 80 in that order, and the
  file of the entry with F1 70 is not on storage.
\<close>

theorem pool_scenario:
  "\<exists>s'. retain_all [(80, p1), (85, p2), (70, p3), (90, p4)] \<lparr>best_result = [], storage = files\<rparr>
          = Inr s'
      \<and> best_result s' = [(90, p4), (85, p2), (80, p1)]
      \<and> p3 \<notin> storage s'"
  by (simp add: retain_checkpoint_def ranked_def sort_reverse_def torch_save_def os_remove_def
      Let_def)

section \<open>Properties of the noise injector\<close>

text \<open>
  Two tensors of one size: the rows correspond, and so do the positions of each row.
  (Neither fact is a rewrite rule: the other tensor is not determined by the left side.)
\<close>

lemma shape_eq_length: "map length c = map length m \<Longrightarrow> length c = length m"
  by (rule map_eq_imp_length_eq)

lemma shape_eq_row:
  assumes "map length c = map length m" and "i < length m"
  shows "length (c ! i) = length (m ! i)"
proof -
  from assms(2) shape_eq_length [OF assms(1)] have "i < length c" by simp
  then have "length (c ! i) = map length c ! i" by simp
  also have "\<dots> = map length m ! i" by (simp add: assms(1))
  also from assms(2) have "\<dots> = length (m ! i)" by simp
  finally show ?thesis .
qed

lemma map2_map2_shape:
  assumes "map length c = map length m"
  shows "map length (map2 (map2 f) m c) = map length m"
proof (rule nth_equalityI)
  show "length (map length (map2 (map2 f) m c)) = length (map length m)"
    using shape_eq_length [OF assms] by simp
next
  fix i assume "i < length (map length (map2 (map2 f) m c))"
  then have i: "i < length m" "i < length c" by simp_all
  from assms i(1) have "length (c ! i) = length (m ! i)" by (rule shape_eq_row)
  with i show "map length (map2 (map2 f) m c) ! i = map length m ! i" by simp
qed

lemma map2_map2_nth:
  assumes "map length c = map length m" and "i < length m" and "j < length (m ! i)"
  shows "map2 (map2 f) m c ! i ! j = f (m ! i ! j) (c ! i ! j)"
proof -
  from assms(2) shape_eq_length [OF assms(1)] have i: "i < length c" by simp
  from assms(3) shape_eq_row [OF assms(1,2)] have j: "j < length (c ! i)" by simp
  from assms(2) i have "map2 (map2 f) m c ! i = map2 f (m ! i) (c ! i)" by simp
  with assms(3) j show ?thesis by simp
qed

lemma masked_fill_shape:
  assumes "masked_fill m c v = Inr m'"
  shows "map length m' = map length m"
proof -
  from assms have sh: "map length c = map length m"
    and m': "m' = map2 (map2 (\<lambda>p b. if b then v else p)) m c"
    by (auto simp: masked_fill_def split: if_splits)
  show ?thesis unfolding m' by (rule map2_map2_shape [OF sh])
qed

lemma masked_fill_nth:
  assumes "masked_fill m c v = Inr m'" and "i < length m" and "j < length (m ! i)"
  shows "m' ! i ! j = (if c ! i ! j then v else m ! i ! j)"
proof -
  from assms(1) have sh: "map length c = map length m" and m': "m' = map2 (map2 (\<lambda>p b. if b then v else p)) m c"
    by (auto simp: masked_fill_def split: if_splits)
  show ?thesis unfolding m' by (rule map2_map2_nth [OF sh assms(2,3)])
qed

lemma masked_fill_zero:
  assumes "masked_fill m c 0 = Inr m'" and "i < length m" and "j < length (m ! i)"
    and "m' ! i ! j \<noteq> 0"
  shows "\<not> c ! i ! j \<and> m ! i ! j \<noteq> 0"
  using masked_fill_nth [OF assms(1,2,3)] assms(4) by (auto split: if_splits)

lemma full_shape: "map length (full shape v) = map length shape"
  by (simp add: full_def)

lemma expand_nth:
  assumes "expand ids shape = Inr e" and "i < length shape" and "j < length (shape ! i)"
  shows "e ! i ! j = ids ! i"
  using assms by (auto simp: expand_def split: if_splits)

lemma expand_shape:
  assumes "expand ids shape = Inr e"
  shows "map length e = map length shape" and "length ids = length shape"
proof -
  from assms have len: "length ids = length shape" and e: "e = map2 (\<lambda>t row. map (\<lambda>_. t) row) ids shape"
    by (auto simp: expand_def split: if_splits)
  show "length ids = length shape" by (rule len)
  show "map length e = map length shape"
    unfolding e using len by (intro nth_equalityI) simp_all
qed

lemma tensor_ne_nth:
  assumes "tensor_ne a b = Inr d" and "i < length a" and "j < length (a ! i)"
  shows "d ! i ! j = (a ! i ! j \<noteq> b ! i ! j)"
proof -
  from assms(1) have sh: "map length b = map length a" and d: "d = map2 (map2 (\<lambda>x y. x \<noteq> y)) a b"
    by (auto simp: tensor_ne_def split: if_splits)
  show ?thesis unfolding d by (rule map2_map2_nth [OF sh assms(2,3)])
qed

lemma tensor_eq_nth:
  assumes "tensor_eq a b = Inr d" and "i < length a" and "j < length (a ! i)"
  shows "d ! i ! j = (a ! i ! j = b ! i ! j)"
proof -
  from assms(1) have sh: "map length b = map length a" and d: "d = map2 (map2 (\<lambda>x y. x = y)) a b"
    by (auto simp: tensor_eq_def split: if_splits)
  show ?thesis unfolding d by (rule map2_map2_nth [OF sh assms(2,3)])
qed

lemma bernoulli_shape:
  assumes "bernoulli coin pm = Inr mi"
  shows "map length mi = map length pm"
proof -
  from assms have mi: "mi = map (\<lambda>(i, row).
                  map (\<lambda>(j, p). if p = 0 then False else if p = 1 then True else coin i j)
                    (enumerate 0 row))
                (enumerate 0 pm)"
    by (auto simp: bernoulli_def split: if_splits)
  show ?thesis unfolding mi by (intro nth_equalityI) (simp_all add: nth_enumerate_eq)
qed

lemma bernoulli_nth:
  assumes "bernoulli coin pm = Inr mi" and "i < length pm" and "j < length (pm ! i)"
  shows "mi ! i ! j = (if pm ! i ! j = 0 then False else if pm ! i ! j = 1 then True else coin i j)"
proof -
  from assms(1) have mi: "mi = map (\<lambda>(i, row).
                  map (\<lambda>(j, p). if p = 0 then False else if p = 1 then True else coin i j)
                    (enumerate 0 row))
                (enumerate 0 pm)"
    by (auto simp: bernoulli_def split: if_splits)
  show ?thesis unfolding mi using assms(2,3) by (simp add: nth_enumerate_eq)
qed

lemma mode_filter_shape:
  "mode_filter mode pm iv tv = Inr pm' \<Longrightarrow> map length pm' = map length pm"
  by (auto simp: mode_filter_def bind_err_def masked_fill_shape split: if_splits sum.splits)

lemma masked_indices_steps:
  assumes "masked_indices tok iv tv kv mode p coin = Inr mi"
  obtains e pm1 pm2 pm3 where
    "expand kv iv = Inr e"
    and "masked_fill (full iv p) (map (map (\<lambda>t. t \<noteq> 1)) e) 0 = Inr pm1"
    and "masked_fill pm1 (map (get_special_tokens_mask tok) iv) 0 = Inr pm2"
    and "mode_filter mode pm2 iv tv = Inr pm3"
    and "bernoulli coin pm3 = Inr mi"
  using assms unfolding masked_indices_def bind_err_def
  by (auto split: sum.splits)

lemma mode_filter_nth:
  assumes "mode_filter mode pm iv tv = Inr pm'" and sh: "map length pm = map length iv"
    and "i < length iv" and "j < length (iv ! i)" and "pm' ! i ! j \<noteq> 0"
  shows "pm ! i ! j \<noteq> 0 \<and> (mode = ''noerror'' \<longrightarrow> iv ! i ! j = tv ! i ! j)
       \<and> (mode = ''error'' \<longrightarrow> iv ! i ! j \<noteq> tv ! i ! j)"
proof -
  from sh assms(3,4) have i: "i < length pm" and j: "j < length (pm ! i)"
    using shape_eq_length [OF sh] shape_eq_row [OF sh] by auto
  consider (noerror) "mode = ''noerror''" | (error) "mode = ''error''" | (all) "mode = ''all''"
    using assms(1) by (auto simp: mode_filter_def split: if_splits)
  then show ?thesis
  proof cases
    case noerror
    with assms(1) obtain d where d: "tensor_ne iv tv = Inr d" and f: "masked_fill pm d 0 = Inr pm'"
      by (auto simp: mode_filter_def bind_err_def split: sum.splits)
    from masked_fill_zero [OF f i j assms(5)] tensor_ne_nth [OF d assms(3,4)] noerror
    show ?thesis by simp
  next
    case error
    with assms(1) obtain d where d: "tensor_eq iv tv = Inr d" and f: "masked_fill pm d 0 = Inr pm'"
      by (auto simp: mode_filter_def bind_err_def split: sum.splits)
    from masked_fill_zero [OF f i j assms(5)] tensor_eq_nth [OF d assms(3,4)] error
    show ?thesis by simp
  next
    case all
    with assms(1,5) show ?thesis by (simp add: mode_filter_def)
  qed
qed

lemma masked_indices_shape:
  assumes "masked_indices tok iv tv kv mode p coin = Inr mi"
  shows "map length mi = map length iv" and "length kv = length iv"
proof -
  from assms obtain e pm1 pm2 pm3 where
    e: "expand kv iv = Inr e"
    and pm1: "masked_fill (full iv p) (map (map (\<lambda>t. t \<noteq> 1)) e) 0 = Inr pm1"
    and pm2: "masked_fill pm1 (map (get_special_tokens_mask tok) iv) 0 = Inr pm2"
    and pm3: "mode_filter mode pm2 iv tv = Inr pm3"
    and mi: "bernoulli coin pm3 = Inr mi"
    by (rule masked_indices_steps)
  show "length kv = length iv" using e by (rule expand_shape)
  show "map length mi = map length iv"
    using bernoulli_shape [OF mi] mode_filter_shape [OF pm3] masked_fill_shape [OF pm2]
      masked_fill_shape [OF pm1] by (simp add: full_shape)
qed

lemma masked_indices_nth:
  assumes "masked_indices tok iv tv kv mode p coin = Inr mi"
    and i: "i < length iv" and j: "j < length (iv ! i)" and m: "mi ! i ! j"
  shows "kv ! i = 1" and "\<not> get_special_tokens_mask tok (iv ! i) ! j"
    and "mode = ''noerror'' \<longrightarrow> iv ! i ! j = tv ! i ! j"
    and "mode = ''error'' \<longrightarrow> iv ! i ! j \<noteq> tv ! i ! j"
proof -
  from assms(1) obtain e pm1 pm2 pm3 where
    e: "expand kv iv = Inr e"
    and pm1: "masked_fill (full iv p) (map (map (\<lambda>t. t \<noteq> 1)) e) 0 = Inr pm1"
    and pm2: "masked_fill pm1 (map (get_special_tokens_mask tok) iv) 0 = Inr pm2"
    and pm3: "mode_filter mode pm2 iv tv = Inr pm3"
    and mi: "bernoulli coin pm3 = Inr mi"
    by (rule masked_indices_steps)
  have sh0: "map length (full iv p) = map length iv" by (rule full_shape)
  have sh1: "map length pm1 = map length iv" using masked_fill_shape [OF pm1] sh0 by simp
  have sh2: "map length pm2 = map length iv" using masked_fill_shape [OF pm2] sh1 by simp
  have sh3: "map length pm3 = map length iv" using mode_filter_shape [OF pm3] sh2 by simp
  have she: "map length e = map length iv" using e by (rule expand_shape)
  have idx: "i < length pm" "j < length (pm ! i)" if "map length pm = map length iv" for pm :: "real list list"
    using that i j shape_eq_length [OF that] shape_eq_row [OF that] by auto
  have "pm3 ! i ! j \<noteq> 0"
    using bernoulli_nth [OF mi idx [OF sh3]] m by (auto split: if_splits)
  from mode_filter_nth [OF pm3 sh2 i j this]
  have nz2: "pm2 ! i ! j \<noteq> 0"
    and "mode = ''noerror'' \<longrightarrow> iv ! i ! j = tv ! i ! j"
    and "mode = ''error'' \<longrightarrow> iv ! i ! j \<noteq> tv ! i ! j"
    by simp_all
  then show "mode = ''noerror'' \<longrightarrow> iv ! i ! j = tv ! i ! j"
    and "mode = ''error'' \<longrightarrow> iv ! i ! j \<noteq> tv ! i ! j" by simp_all
  from masked_fill_zero [OF pm2 idx [OF sh1] nz2] i
  have sp: "\<not> get_special_tokens_mask tok (iv ! i) ! j" and nz1: "pm1 ! i ! j \<noteq> 0"
    by simp_all
  show "\<not> get_special_tokens_mask tok (iv ! i) ! j" by (rule sp)
  have ie: "i < length e" "j < length (e ! i)"
    using i j shape_eq_length [OF she] shape_eq_row [OF she] by auto
  from masked_fill_zero [OF pm1 idx [OF sh0] nz1] ie
  have "e ! i ! j = 1" by simp
  with expand_nth [OF e i j] show "kv ! i = 1" by simp
qed

lemma index_put_shape:
  assumes "map length mi = map length iv"
  shows "map length (index_put iv mi v) = map length iv"
  unfolding index_put_def by (rule map2_map2_shape [OF assms])

lemma index_put_nth:
  assumes "map length mi = map length iv" and "i < length iv" and "j < length (iv ! i)"
  shows "index_put iv mi v ! i ! j = (if mi ! i ! j then v else iv ! i ! j)"
  unfolding index_put_def by (rule map2_map2_nth [OF assms])

lemma mask_tokens_result:
  assumes call: "mask_tokens st inputs targets task_ids tok mode p coin = Inr (st', out)"
    and rng: "inputs < length st" "targets < length st" "task_ids < length st"
  obtains iv tv kv mi where
    "st ! inputs = Long2 iv" and "st ! targets = Long2 tv" and "st ! task_ids = Long1 kv"
    and "masked_indices tok iv tv kv mode p coin = Inr mi"
    and "out = length st"
    and "st' = st @ [Long2 (index_put iv mi (mask_token_id tok))]"
  using call rng
  unfolding mask_tokens_def clone_def bind_err_def
  by (auto simp: nth_append split: tensor.splits sum.splits)

text \<open>
  Claim C2. Take any call that returns, on any batch, with any draws, with the tensor
  it returns, and any position of the batch. The returned token there is the mask token
  where the call's mask (\<^verbatim>\<open>masked_indices\<close>) is set and the input token elsewhere. If
  the position is masked (the mask is set there, or the returned token differs from the
  input token), then under mode \<^verbatim>\<open>noerror\<close> the input token there equals the target
  token, and under mode \<^verbatim>\<open>error\<close> it differs from it. Input and target are read before
  the call, from the tensors the caller passed.
\<close>

theorem mask_tokens_mode:
  assumes call: "mask_tokens st inputs targets task_ids tok mode p coin = Inr (st', out)"
    and rng: "inputs < length st" "targets < length st" "task_ids < length st"
    and iv: "st ! inputs = Long2 iv" and tv: "st ! targets = Long2 tv"
    and kv: "st ! task_ids = Long1 kv"
    and mi: "masked_indices tok iv tv kv mode p coin = Inr mi"
    and ov: "st' ! out = Long2 ov"
    and i: "i < length iv" and j: "j < length (iv ! i)"
  shows "ov ! i ! j = (if mi ! i ! j then mask_token_id tok else iv ! i ! j)
       \<and> (mi ! i ! j \<or> ov ! i ! j \<noteq> iv ! i ! j
          \<longrightarrow> (mode = ''noerror'' \<longrightarrow> iv ! i ! j = tv ! i ! j)
              \<and> (mode = ''error'' \<longrightarrow> iv ! i ! j \<noteq> tv ! i ! j))"
proof -
  from call rng obtain iv' tv' kv' mi' where
    "st ! inputs = Long2 iv'" "st ! targets = Long2 tv'" "st ! task_ids = Long1 kv'"
    "masked_indices tok iv' tv' kv' mode p coin = Inr mi'"
    "out = length st" "st' = st @ [Long2 (index_put iv' mi' (mask_token_id tok))]"
    by (rule mask_tokens_result)
  with iv tv kv mi ov have ov_eq: "ov = index_put iv mi (mask_token_id tok)"
    by simp
  have sh: "map length mi = map length iv" using mi by (rule masked_indices_shape)
  have pos: "ov ! i ! j = (if mi ! i ! j then mask_token_id tok else iv ! i ! j)"
    unfolding ov_eq using sh i j by (rule index_put_nth)
  have "(mode = ''noerror'' \<longrightarrow> iv ! i ! j = tv ! i ! j)
      \<and> (mode = ''error'' \<longrightarrow> iv ! i ! j \<noteq> tv ! i ! j)" if "mi ! i ! j"
    using masked_indices_nth(3,4) [OF mi i j that] by simp
  with pos show ?thesis by auto
qed

text \<open>
  Claim C3. In any call that returns, whatever the mode and the draws: a position in a
  row whose task id is not 1 is not masked and the whole row comes back as it went in;
  a position that the tokenizer flags as a special token is not masked and keeps its
  token.
\<close>

theorem mask_tokens_rows:
  assumes call: "mask_tokens st inputs targets task_ids tok mode p coin = Inr (st', out)"
    and rng: "inputs < length st" "targets < length st" "task_ids < length st"
    and iv: "st ! inputs = Long2 iv" and tv: "st ! targets = Long2 tv"
    and kv: "st ! task_ids = Long1 kv"
    and mi: "masked_indices tok iv tv kv mode p coin = Inr mi"
    and ov: "st' ! out = Long2 ov"
    and i: "i < length iv" and j: "j < length (iv ! i)"
  shows "(kv ! i \<noteq> 1 \<longrightarrow> \<not> mi ! i ! j \<and> ov ! i = iv ! i)
       \<and> (get_special_tokens_mask tok (iv ! i) ! j \<longrightarrow> \<not> mi ! i ! j \<and> ov ! i ! j = iv ! i ! j)"
proof -
  from call rng obtain iv' tv' kv' mi' where
    "st ! inputs = Long2 iv'" "st ! targets = Long2 tv'" "st ! task_ids = Long1 kv'"
    "masked_indices tok iv' tv' kv' mode p coin = Inr mi'"
    "out = length st" "st' = st @ [Long2 (index_put iv' mi' (mask_token_id tok))]"
    by (rule mask_tokens_result)
  with iv tv kv mi ov have ov_eq: "ov = index_put iv mi (mask_token_id tok)"
    by simp
  have sh: "map length mi = map length iv" using mi by (rule masked_indices_shape)
  have pos: "ov ! i ! k = (if mi ! i ! k then mask_token_id tok else iv ! i ! k)"
    if "k < length (iv ! i)" for k
    unfolding ov_eq using sh i that by (rule index_put_nth)
  have "map length ov = map length iv" unfolding ov_eq using sh by (rule index_put_shape)
  then have len: "length (ov ! i) = length (iv ! i)" using i by (rule shape_eq_row)
  have unmasked: "\<not> mi ! i ! k" if "kv ! i \<noteq> 1" and "k < length (iv ! i)" for k
    using masked_indices_nth(1) [OF mi i that(2)] that(1) by blast
  have row: "ov ! i = iv ! i" if t: "kv ! i \<noteq> 1"
  proof (rule nth_equalityI)
    show "length (ov ! i) = length (iv ! i)" by (rule len)
  next
    fix k assume "k < length (ov ! i)"
    with len have k: "k < length (iv ! i)" by simp
    from pos [OF k] unmasked [OF t k] show "ov ! i ! k = iv ! i ! k" by simp
  qed
  have special: "\<not> mi ! i ! j" if "get_special_tokens_mask tok (iv ! i) ! j"
    using masked_indices_nth(2) [OF mi i j] that by blast
  from row unmasked [OF _ j] special pos [OF j] show ?thesis by auto
qed

text \<open>
  Claim C10. A call that returns leaves every cell of the caller's store as it was, in
  particular \<^verbatim>\<open>inputs\<close>, \<^verbatim>\<open>targets\<close> and \<^verbatim>\<open>task_ids\<close>; its result is a new cell, of
  the size of \<^verbatim>\<open>inputs\<close>, in which every position holds the input token or the mask
  token id.
\<close>

theorem mask_tokens_frame:
  assumes call: "mask_tokens st inputs targets task_ids tok mode p coin = Inr (st', out)"
    and rng: "inputs < length st" "targets < length st" "task_ids < length st"
    and iv: "st ! inputs = Long2 iv"
    and ov: "st' ! out = Long2 ov"
    and i: "i < length iv" and j: "j < length (iv ! i)"
  shows "take (length st) st' = st
       \<and> st' ! inputs = st ! inputs \<and> st' ! targets = st ! targets
       \<and> st' ! task_ids = st ! task_ids
       \<and> out = length st \<and> length st' = Suc (length st)
       \<and> map length ov = map length iv
       \<and> (ov ! i ! j = iv ! i ! j \<or> ov ! i ! j = mask_token_id tok)"
proof -
  from call rng obtain iv' tv kv mi where
    iv': "st ! inputs = Long2 iv'"
    and mi: "masked_indices tok iv' tv kv mode p coin = Inr mi"
    and out: "out = length st"
    and st': "st' = st @ [Long2 (index_put iv' mi (mask_token_id tok))]"
    by (rule mask_tokens_result)
  from iv iv' have [simp]: "iv' = iv" by simp
  from ov out st' have ov_eq: "ov = index_put iv mi (mask_token_id tok)" by simp
  have sh: "map length mi = map length iv" using mi by (simp add: masked_indices_shape)
  have "map length ov = map length iv" unfolding ov_eq using sh by (rule index_put_shape)
  moreover have "ov ! i ! j = iv ! i ! j \<or> ov ! i ! j = mask_token_id tok"
    unfolding ov_eq using index_put_nth [OF sh i j] by simp
  ultimately show ?thesis using rng out st' by (simp add: nth_append)
qed


text \<open>
  A batch of one CSC row (one wrong character, id 8 for 7) and one SEQ row, evaluated.
\<close>

lemma demo_masked_error:
  "masked_indices demo_tokenizer [[101, 5, 8, 102], [101, 9, 9, 102]]
     [[101, 5, 7, 102], [3, - 100, - 100, - 100]] [1, 0] ''error'' (1 / 2) (\<lambda>i j. True)
   = Inr [[False, False, True, False], [False, False, False, False]]"
  by (simp add: masked_indices_def bind_err_def expand_def masked_fill_def full_def
      mode_filter_def tensor_eq_def bernoulli_def demo_tokenizer_def)

lemma demo_call_error:
  "mask_tokens demo_store 0 1 2 demo_tokenizer ''error'' (1 / 2) (\<lambda>i j. True)
   = Inr (demo_store @ [Long2 [[101, 5, 103, 102], [101, 9, 9, 102]]], 3)"
proof -
  have "mask_token_id demo_tokenizer = 103" by (simp add: demo_tokenizer_def)
  then show ?thesis
    by (simp add: mask_tokens_def clone_def demo_store_def demo_masked_error bind_err_def
        index_put_def)
qed

lemma demo_masked_noerror:
  "masked_indices demo_tokenizer [[101, 5, 8, 102], [101, 9, 9, 102]]
     [[101, 5, 7, 102], [3, - 100, - 100, - 100]] [1, 0] ''noerror'' (1 / 2) (\<lambda>i j. True)
   = Inr [[False, True, False, False], [False, False, False, False]]"
  by (simp add: masked_indices_def bind_err_def expand_def masked_fill_def full_def
      mode_filter_def tensor_ne_def bernoulli_def demo_tokenizer_def)

lemma demo_call_noerror:
  "mask_tokens demo_store 0 1 2 demo_tokenizer ''noerror'' (1 / 2) (\<lambda>i j. True)
   = Inr (demo_store @ [Long2 [[101, 103, 8, 102], [101, 9, 9, 102]]], 3)"
proof -
  have "mask_token_id demo_tokenizer = 103" by (simp add: demo_tokenizer_def)
  then show ?thesis
    by (simp add: mask_tokens_def clone_def demo_store_def demo_masked_noerror bind_err_def
        index_put_def)
qed

theorem mask_tokens_mode_witness:
  "mask_tokens demo_store 0 1 2 demo_tokenizer ''error'' (1 / 2) (\<lambda>i j. True)
     = Inr (demo_store @ [Long2 [[101, 5, 103, 102], [101, 9, 9, 102]]], 3)
   \<and> [[101, 5, 103, 102], [101, 9, 9, 102 :: int]] ! 0 ! 2
       \<noteq> [[101, 5, 8, 102], [101, 9, 9, 102]] ! 0 ! 2
   \<and> [[101, 5, 8, 102], [101, 9, 9, 102 :: int]] ! 0 ! 2
       \<noteq> [[101, 5, 7, 102], [3, - 100, - 100, - 100]] ! 0 ! 2
   \<and> mask_tokens demo_store 0 1 2 demo_tokenizer ''noerror'' (1 / 2) (\<lambda>i j. True)
     = Inr (demo_store @ [Long2 [[101, 103, 8, 102], [101, 9, 9, 102]]], 3)
   \<and> [[101, 103, 8, 102], [101, 9, 9, 102 :: int]] ! 0 ! 1
       \<noteq> [[101, 5, 8, 102], [101, 9, 9, 102]] ! 0 ! 1
   \<and> [[101, 5, 8, 102], [101, 9, 9, 102 :: int]] ! 0 ! 1
       = [[101, 5, 7, 102], [3, - 100, - 100, - 100]] ! 0 ! 1"
proof -
  have rng: "0 < length demo_store" "1 < length demo_store" "2 < length demo_store"
    by (simp_all add: demo_store_def)
  have iv: "demo_store ! 0 = Long2 [[101, 5, 8, 102], [101, 9, 9, 102]]"
    and tv: "demo_store ! 1 = Long2 [[101, 5, 7, 102], [3, - 100, - 100, - 100]]"
    and kv: "demo_store ! 2 = Long1 [1, 0]"
    by (simp_all add: demo_store_def)
  have ove: "(demo_store @ [Long2 [[101, 5, 103, 102], [101, 9, 9, 102]]]) ! 3
            = Long2 [[101, 5, 103, 102], [101, 9, 9, 102]]"
    and ovn: "(demo_store @ [Long2 [[101, 103, 8, 102], [101, 9, 9, 102]]]) ! 3
            = Long2 [[101, 103, 8, 102], [101, 9, 9, 102]]"
    by (simp_all add: demo_store_def)
  have i: "0 < length [[101, 5, 8, 102], [101, 9, 9, 102 :: int]]" by simp
  have j2: "2 < length ([[101, 5, 8, 102], [101, 9, 9, 102 :: int]] ! 0)" by simp
  have j1: "1 < length ([[101, 5, 8, 102], [101, 9, 9, 102 :: int]] ! 0)" by simp
  have ce: "[[101, 5, 103, 102], [101, 9, 9, 102 :: int]] ! 0 ! 2
            \<noteq> [[101, 5, 8, 102], [101, 9, 9, 102]] ! 0 ! 2" by simp
  have cn: "[[101, 103, 8, 102], [101, 9, 9, 102 :: int]] ! 0 ! 1
            \<noteq> [[101, 5, 8, 102], [101, 9, 9, 102]] ! 0 ! 1" by simp
  from mask_tokens_mode [OF demo_call_error rng iv tv kv demo_masked_error ove i j2] ce
  have e: "[[101, 5, 8, 102], [101, 9, 9, 102 :: int]] ! 0 ! 2
           \<noteq> [[101, 5, 7, 102], [3, - 100, - 100, - 100]] ! 0 ! 2"
    by blast
  from mask_tokens_mode [OF demo_call_noerror rng iv tv kv demo_masked_noerror ovn i j1] cn
  have n: "[[101, 5, 8, 102], [101, 9, 9, 102 :: int]] ! 0 ! 1
           = [[101, 5, 7, 102], [3, - 100, - 100, - 100]] ! 0 ! 1"
    by blast
  from e n ce cn demo_call_error demo_call_noerror show ?thesis by blast
qed

lemma demo_masked_all:
  "masked_indices demo_tokenizer [[101, 5, 8, 102], [101, 9, 9, 102]]
     [[101, 5, 7, 102], [3, - 100, - 100, - 100]] [1, 0] ''all'' 1 (\<lambda>i j. False)
   = Inr [[False, True, True, False], [False, False, False, False]]"
  by (simp add: masked_indices_def bind_err_def expand_def masked_fill_def full_def
      mode_filter_def bernoulli_def demo_tokenizer_def)

lemma demo_call_all:
  "mask_tokens demo_store 0 1 2 demo_tokenizer ''all'' 1 (\<lambda>i j. False)
   = Inr (demo_store @ [Long2 [[101, 103, 103, 102], [101, 9, 9, 102]]], 3)"
proof -
  have "mask_token_id demo_tokenizer = 103" by (simp add: demo_tokenizer_def)
  then show ?thesis
    by (simp add: mask_tokens_def clone_def demo_store_def demo_masked_all bind_err_def
        index_put_def)
qed

theorem mask_tokens_rows_witness:
  "mask_tokens demo_store 0 1 2 demo_tokenizer ''all'' 1 (\<lambda>i j. False)
     = Inr (demo_store @ [Long2 [[101, 103, 103, 102], [101, 9, 9, 102]]], 3)
   \<and> masked_indices demo_tokenizer [[101, 5, 8, 102], [101, 9, 9, 102]]
       [[101, 5, 7, 102], [3, - 100, - 100, - 100]] [1, 0] ''all'' 1 (\<lambda>i j. False)
     = Inr [[False, True, True, False], [False, False, False, False]]
   \<and> [1, 0 :: int] ! 1 \<noteq> 1
   \<and> get_special_tokens_mask demo_tokenizer ([[101, 5, 8, 102], [101, 9, 9, 102]] ! 1) ! 0
   \<and> \<not> [[False, True, True, False], [False, False, False, False]] ! 1 ! 0
   \<and> [[101, 103, 103, 102], [101, 9, 9, 102 :: int]] ! 1
       = [[101, 5, 8, 102], [101, 9, 9, 102]] ! 1
   \<and> [[101, 103, 103, 102], [101, 9, 9, 102 :: int]] ! 1 ! 0
       = [[101, 5, 8, 102], [101, 9, 9, 102]] ! 1 ! 0"
proof -
  have rng: "0 < length demo_store" "1 < length demo_store" "2 < length demo_store"
    by (simp_all add: demo_store_def)
  have iv: "demo_store ! 0 = Long2 [[101, 5, 8, 102], [101, 9, 9, 102]]"
    and tv: "demo_store ! 1 = Long2 [[101, 5, 7, 102], [3, - 100, - 100, - 100]]"
    and kv: "demo_store ! 2 = Long1 [1, 0]"
    by (simp_all add: demo_store_def)
  have ov: "(demo_store @ [Long2 [[101, 103, 103, 102], [101, 9, 9, 102]]]) ! 3
            = Long2 [[101, 103, 103, 102], [101, 9, 9, 102]]"
    by (simp add: demo_store_def)
  have i: "1 < length [[101, 5, 8, 102], [101, 9, 9, 102 :: int]]" by simp
  have j: "0 < length ([[101, 5, 8, 102], [101, 9, 9, 102 :: int]] ! 1)" by simp
  have sp: "get_special_tokens_mask demo_tokenizer ([[101, 5, 8, 102], [101, 9, 9, 102]] ! 1) ! 0"
    by (simp add: demo_tokenizer_def)
  from mask_tokens_rows [OF demo_call_all rng iv tv kv demo_masked_all ov i j]
  show ?thesis using demo_call_all demo_masked_all sp by simp
qed

theorem mask_tokens_frame_witness:
  "mask_tokens demo_store 0 1 2 demo_tokenizer ''error'' (1 / 2) (\<lambda>i j. True)
     = Inr (demo_store @ [Long2 [[101, 5, 103, 102], [101, 9, 9, 102]]], 3)
   \<and> 0 < length demo_store \<and> 1 < length demo_store \<and> 2 < length demo_store
   \<and> take (length demo_store)
        (demo_store @ [Long2 [[101, 5, 103, 102], [101, 9, 9, 102]]]) = demo_store
   \<and> (demo_store @ [Long2 [[101, 5, 103, 102], [101, 9, 9, 102]]]) ! 0 = demo_store ! 0
   \<and> (demo_store @ [Long2 [[101, 5, 103, 102], [101, 9, 9, 102]]]) ! 1 = demo_store ! 1
   \<and> (demo_store @ [Long2 [[101, 5, 103, 102], [101, 9, 9, 102]]]) ! 2 = demo_store ! 2
   \<and> 3 = length demo_store
   \<and> [[101, 5, 103, 102], [101, 9, 9, 102 :: int]] ! 0 ! 2 = mask_token_id demo_tokenizer"
proof -
  have rng: "0 < length demo_store" "1 < length demo_store" "2 < length demo_store"
    by (simp_all add: demo_store_def)
  have iv: "demo_store ! 0 = Long2 [[101, 5, 8, 102], [101, 9, 9, 102]]"
    by (simp add: demo_store_def)
  have ov: "(demo_store @ [Long2 [[101, 5, 103, 102], [101, 9, 9, 102]]]) ! 3
            = Long2 [[101, 5, 103, 102], [101, 9, 9, 102]]"
    by (simp add: demo_store_def)
  have i: "0 < length [[101, 5, 8, 102], [101, 9, 9, 102 :: int]]" by simp
  have j: "2 < length ([[101, 5, 8, 102], [101, 9, 9, 102 :: int]] ! 0)" by simp
  from mask_tokens_frame [OF demo_call_error rng iv ov i j]
  show ?thesis using demo_call_error rng by simp
qed

section \<open>Properties of the training loop\<close>

lemma retain_checkpoint_frame:
  fixes s :: train_state
  assumes "retain_checkpoint c s = Inr s'"
  shows "global_step s' = global_step s" and "optimizer_steps s' = optimizer_steps s"
    and "wrap s' = wrap s" and "eval_results s' = eval_results s"
  using assms
  by (auto simp: retain_checkpoint_def Let_def split: if_splits sum.splits)

lemma evaluation_frame:
  assumes "evaluation C loc epoch step s = Inr s'"
  shows "global_step s' = global_step s" and "optimizer_steps s' = optimizer_steps s"
    and "wrap s' = wrap s"
  using assms
  by (auto simp: evaluation_def Let_def bind_err_def
      split: if_splits sum.splits prod.splits dest: retain_checkpoint_frame)

lemma micro_batch_steps:
  assumes "micro_batch C a loc epoch step s = Inr s'"
  obtains due s1 where "update_due a loc step = Inr due"
    and "s1 = (if due then optimizer_update s else s)"
    and "global_step s' = global_step s1" and "optimizer_steps s' = optimizer_steps s1"
    and "wrap s' = wrap s1"
  using assms
  by (auto simp: micro_batch_def bind_err_def Let_def
      split: option.splits sum.splits if_splits dest: evaluation_frame)

text \<open>
  Claim C4. In any micro-batch that completes, of any epoch: when its index satisfies
  \<^verbatim>\<open>(step + 1) % gradient_accumulation_steps == 0\<close> or it is the last batch of the
  loader, the optimizer steps once and \<^verbatim>\<open>global_step\<close> grows by exactly 1; otherwise
  the optimizer does not step and \<^verbatim>\<open>global_step\<close> keeps its value. (Under \<^verbatim>\<open>fp16\<close> the
  step of the optimizer is the call \<^verbatim>\<open>scaler.step(optimizer)\<close>.)
\<close>

theorem micro_batch_global_step:
  assumes "micro_batch C a loc epoch step s = Inr s'"
  shows "((int step + 1) mod gradient_accumulation_steps a = 0
            \<or> int step = int (train_dataloader loc) - 1
          \<longrightarrow> global_step s' = global_step s + 1
              \<and> optimizer_steps s' = Suc (optimizer_steps s))
       \<and> (\<not> ((int step + 1) mod gradient_accumulation_steps a = 0
               \<or> int step = int (train_dataloader loc) - 1)
          \<longrightarrow> global_step s' = global_step s \<and> optimizer_steps s' = optimizer_steps s)"
proof -
  from assms obtain due s1 where due: "update_due a loc step = Inr due"
    and s1: "s1 = (if due then optimizer_update s else s)"
    and g: "global_step s' = global_step s1" and os: "optimizer_steps s' = optimizer_steps s1"
    by (rule micro_batch_steps)
  from due have "due = ((int step + 1) mod gradient_accumulation_steps a = 0
                        \<or> int step = int (train_dataloader loc) - 1)"
    by (auto simp: update_due_def split: if_splits)
  with s1 g os show ?thesis by (simp add: optimizer_update_def)
qed

lemma micro_batch_counts:
  assumes "micro_batch C a loc epoch step s = Inr s'"
  shows "wrap s' = wrap s"
    and "global_step s \<le> global_step s'" and "global_step s' \<le> global_step s + 1"
    and "global_step s = int (optimizer_steps s)
         \<Longrightarrow> global_step s' = int (optimizer_steps s')"
proof -
  from assms obtain due s1 where "update_due a loc step = Inr due"
    and s1: "s1 = (if due then optimizer_update s else s)"
    and g: "global_step s' = global_step s1" and os: "optimizer_steps s' = optimizer_steps s1"
    and w: "wrap s' = wrap s1"
    by (rule micro_batch_steps)
  from s1 w show "wrap s' = wrap s" by (simp add: optimizer_update_def)
  from s1 g show "global_step s \<le> global_step s'" by (simp add: optimizer_update_def)
  from s1 g show "global_step s' \<le> global_step s + 1" by (simp add: optimizer_update_def)
  assume "global_step s = int (optimizer_steps s)"
  with s1 g os show "global_step s' = int (optimizer_steps s')"
    by (simp add: optimizer_update_def)
qed

lemma batch_loop_stops:
  assumes "micro_batch C a loc epoch step s = Inr s'"
    and "max_train_steps a = Some m" and "m \<le> global_step s'"
  shows "batch_loop C a loc epoch (step # steps) s = Inr (s'\<lparr>wrap := True\<rparr>)"
  using assms by (simp add: bind_err_def reached_max_def)

lemma epoch_loop_wrapped:
  assumes "wrap s"
  shows "epoch_loop C a loc epochs s = Inr s"
  using assms by (cases epochs) simp_all

text \<open>
  The budget as an invariant of the loops: from a state below the budget whose
  \<^verbatim>\<open>global_step\<close> counts the steps of the optimizer, the inner loop ends at most at the
  budget, and below it unless it has set \<^verbatim>\<open>wrap\<close>.
\<close>

lemma batch_loop_budget:
  assumes "batch_loop C a loc epoch steps s = Inr s'"
    and "max_train_steps a = Some m"
    and "global_step s < m" and "global_step s = int (optimizer_steps s)"
  shows "global_step s' \<le> m \<and> global_step s' = int (optimizer_steps s')
       \<and> (wrap s' \<or> (global_step s' < m \<and> wrap s' = wrap s))"
  using assms
proof (induction steps arbitrary: s)
  case Nil
  then show ?case by simp
next
  case (Cons step steps)
  from Cons.prems(1) obtain s1 where mb: "micro_batch C a loc epoch step s = Inr s1"
    and rest: "(if m \<le> global_step s1 then Inr (s1\<lparr>wrap := True\<rparr>)
                else batch_loop C a loc epoch steps s1) = Inr s'"
    using Cons.prems(2)
    by (auto simp: bind_err_def reached_max_def split: sum.splits)
  note c = micro_batch_counts [OF mb]
  from c(4) Cons.prems(4) have inv: "global_step s1 = int (optimizer_steps s1)" by simp
  show ?case
  proof (cases "m \<le> global_step s1")
    case True
    with rest have "s' = s1\<lparr>wrap := True\<rparr>" by simp
    moreover from c(3) Cons.prems(3) have "global_step s1 \<le> m" by simp
    ultimately show ?thesis using inv by simp
  next
    case False
    with rest have "batch_loop C a loc epoch steps s1 = Inr s'" by simp
    from Cons.IH [OF this Cons.prems(2) _ inv] False c(1) show ?thesis by auto
  qed
qed

lemma epoch_loop_budget:
  assumes "epoch_loop C a loc epochs s = Inr s'"
    and "max_train_steps a = Some m"
    and "global_step s \<le> m" and "wrap s \<or> global_step s < m"
    and "global_step s = int (optimizer_steps s)"
  shows "global_step s' \<le> m \<and> global_step s' = int (optimizer_steps s')"
  using assms
proof (induction epochs arbitrary: s)
  case Nil
  then show ?case by simp
next
  case (Cons epoch epochs)
  show ?case
  proof (cases "wrap s")
    case True
    with Cons.prems show ?thesis by simp
  next
    case False
    with Cons.prems(1) obtain s1 where
      bl: "batch_loop C a loc epoch [0..<train_dataloader loc] s = Inr s1"
      and rest: "epoch_loop C a loc epochs s1 = Inr s'"
      by (auto simp: bind_err_def split: sum.splits)
    from False Cons.prems(4) have "global_step s < m" by simp
    from batch_loop_budget [OF bl Cons.prems(2) this Cons.prems(5)]
    have "global_step s1 \<le> m" "global_step s1 = int (optimizer_steps s1)"
      "wrap s1 \<or> global_step s1 < m" by auto
    with Cons.IH [OF rest Cons.prems(2)] show ?thesis by simp
  qed
qed

lemma training_budget:
  assumes "training C a loc files results = Inr s"
    and "max_train_steps a = Some m" and "0 < m"
  shows "global_step s \<le> m \<and> global_step s = int (optimizer_steps s)"
proof -
  from assms(1,2) have
    "epoch_loop C a loc [0..<nat (py_int (num_train_epochs a))] (initial_state files results)
     = Inr s"
    by (simp add: training_def)
  from epoch_loop_budget [OF this assms(2)] assms(3) show ?thesis
    by (simp add: initial_state_def)
qed

text \<open>
  Claim C5. With a step budget \<open>m\<close> (\<^verbatim>\<open>args.max_train_steps\<close>): the test
  \<^verbatim>\<open>global_step >= args.max_train_steps\<close> follows every micro-batch, so every update;
  when a micro-batch ends with \<^verbatim>\<open>global_step\<close> at or above the budget, the rest of the
  epoch and all the remaining epochs run nothing: the training ends in the state of that
  micro-batch, with \<^verbatim>\<open>wrap\<close> set. And a whole training with a positive budget that returns
  has stepped the optimizer at most \<open>m\<close> times, \<^verbatim>\<open>global_step\<close> being that count.
\<close>

theorem stop_at_max_train_steps:
  assumes "max_train_steps a = Some m"
  shows "(micro_batch C a loc epoch step s = Inr s' \<and> m \<le> global_step s'
          \<longrightarrow> bind_err (batch_loop C a loc epoch (step # steps) s) (epoch_loop C a loc epochs)
              = Inr (s'\<lparr>wrap := True\<rparr>))
       \<and> (0 < m \<and> training C a loc files results = Inr t
          \<longrightarrow> int (optimizer_steps t) \<le> m \<and> global_step t = int (optimizer_steps t))"
proof -
  have "bind_err (batch_loop C a loc epoch (step # steps) s) (epoch_loop C a loc epochs)
        = Inr (s'\<lparr>wrap := True\<rparr>)"
    if mb: "micro_batch C a loc epoch step s = Inr s'" and ge: "m \<le> global_step s'"
  proof -
    from mb assms ge
    have "batch_loop C a loc epoch (step # steps) s = Inr (s'\<lparr>wrap := True\<rparr>)"
      by (rule batch_loop_stops)
    moreover have "epoch_loop C a loc epochs (s'\<lparr>wrap := True\<rparr>) = Inr (s'\<lparr>wrap := True\<rparr>)"
      by (rule epoch_loop_wrapped) simp
    ultimately show ?thesis by (simp add: bind_err_def)
  qed
  moreover have "int (optimizer_steps t) \<le> m \<and> global_step t = int (optimizer_steps t)"
    if "0 < m" and "training C a loc files results = Inr t"
    using training_budget [OF that(2) assms that(1)] by simp
  ultimately show ?thesis by blast
qed

text \<open>
  The loop evaluated: four batches, one epoch, a budget of two updates, an evaluation
  round after every update.
\<close>

lemma demo_output_model_file:
  "output_model_file demo_collaborators 1 f = ''step-I.bin''"
  "output_model_file demo_collaborators 2 f = ''step-II.bin''"
  by (simp_all add: demo_collaborators_def eval_nat_numeral)

lemma demo_evaluation_first:
  "evaluation demo_collaborators demo_locals epoch step (optimizer_update (initial_state {} []))
   = Inr demo_after_first"
proof -
  have m: "seq_metrics demo_collaborators epoch step = (1 / 2, 1 / 2)"
    by (simp add: demo_collaborators_def)
  have l: "task_name demo_locals = ''tnews''" "eval_dataloader demo_locals = 1"
    by (simp_all add: demo_locals_def)
  show ?thesis
    by (simp add: evaluation_def l m task_class_csc_def task_class_seq_def Let_def
        demo_output_model_file retain_checkpoint_def ranked_def sort_reverse_def
        torch_save_def bind_err_def initial_state_def demo_after_first_def
        optimizer_update_def)
qed

lemma demo_evaluation_second:
  "evaluation demo_collaborators demo_locals epoch step (optimizer_update demo_after_first)
   = Inr demo_after_second"
proof -
  have m: "seq_metrics demo_collaborators epoch step = (1 / 2, 1 / 2)"
    by (simp add: demo_collaborators_def)
  have l: "task_name demo_locals = ''tnews''" "eval_dataloader demo_locals = 1"
    by (simp_all add: demo_locals_def)
  show ?thesis
    by (simp add: evaluation_def l m task_class_csc_def task_class_seq_def Let_def
        demo_output_model_file retain_checkpoint_def ranked_def sort_reverse_def
        torch_save_def bind_err_def demo_after_first_def demo_after_second_def
        optimizer_update_def insert_commute)
qed

lemma demo_update_due: "update_due demo_args demo_locals step = Inr True"
  by (simp add: update_due_def demo_args_def)

lemma demo_eval_due: "eval_due demo_args s = Inr True"
  by (simp add: eval_due_def demo_args_def)

lemma demo_forward_backward: "forward_backward demo_collaborators epoch step = None"
  by (simp add: demo_collaborators_def)

lemma demo_micro_batch_first:
  "micro_batch demo_collaborators demo_args demo_locals 0 0 (initial_state {} [])
   = Inr demo_after_first"
  by (simp add: micro_batch_def bind_err_def demo_forward_backward demo_update_due
      demo_eval_due demo_evaluation_first)

lemma demo_micro_batch:
  "micro_batch demo_collaborators demo_args demo_locals 0 1 demo_after_first
   = Inr demo_after_second"
  by (simp add: micro_batch_def bind_err_def demo_forward_backward demo_update_due
      demo_eval_due demo_evaluation_second)

text \<open>A micro-batch in the middle of an accumulation window of two, without evaluation.\<close>

lemma demo_micro_batch_accumulating:
  "micro_batch demo_collaborators
     (demo_args\<lparr>gradient_accumulation_steps := 2, do_eval := False\<rparr>) demo_locals 0 0
     demo_after_first
   = Inr demo_after_first"
  by (simp add: micro_batch_def bind_err_def demo_forward_backward update_due_def
      eval_due_def demo_locals_def)

lemma demo_training:
  "training demo_collaborators demo_args demo_locals {} []
   = Inr (demo_after_second\<lparr>wrap := True\<rparr>)"
proof -
  let ?C = demo_collaborators and ?a = demo_args and ?loc = demo_locals
  have up: "[0..<train_dataloader ?loc] = 0 # 1 # [2, 3]"
    by (simp add: demo_locals_def upt_rec)
  have mx: "max_train_steps ?a = Some 2" by (simp add: demo_args_def)
  have ep: "[0..<nat (py_int (num_train_epochs ?a))] = [0]"
    by (simp add: demo_args_def py_int_def)
  have w: "\<not> wrap (initial_state {} [])" by (simp add: initial_state_def)
  have g1: "global_step demo_after_first = 1" by (simp add: demo_after_first_def)
  have g2: "2 \<le> global_step demo_after_second" by (simp add: demo_after_second_def)
  have "batch_loop ?C ?a ?loc 0 (1 # [2, 3]) demo_after_first
        = Inr (demo_after_second\<lparr>wrap := True\<rparr>)"
    by (rule batch_loop_stops [OF demo_micro_batch mx g2])
  moreover have "batch_loop ?C ?a ?loc 0 (0 # 1 # [2, 3]) (initial_state {} [])
                 = batch_loop ?C ?a ?loc 0 (1 # [2, 3]) demo_after_first"
    unfolding batch_loop.simps(2) [of ?C ?a ?loc 0 0] demo_micro_batch_first
    by (simp add: bind_err_def reached_max_def mx g1)
  ultimately have "batch_loop ?C ?a ?loc 0 [0..<train_dataloader ?loc] (initial_state {} [])
                   = Inr (demo_after_second\<lparr>wrap := True\<rparr>)"
    unfolding up by simp
  with w have "epoch_loop ?C ?a ?loc [0] (initial_state {} [])
               = Inr (demo_after_second\<lparr>wrap := True\<rparr>)"
    by (simp add: bind_err_def)
  then show ?thesis unfolding training_def mx ep by simp
qed

theorem micro_batch_global_step_witness:
  "micro_batch demo_collaborators demo_args demo_locals 0 1 demo_after_first
     = Inr demo_after_second
   \<and> (int 1 + 1) mod gradient_accumulation_steps demo_args = 0
   \<and> global_step demo_after_second = global_step demo_after_first + 1
   \<and> optimizer_steps demo_after_second = Suc (optimizer_steps demo_after_first)
   \<and> micro_batch demo_collaborators
        (demo_args\<lparr>gradient_accumulation_steps := 2, do_eval := False\<rparr>) demo_locals 0 0
        demo_after_first
     = Inr demo_after_first
   \<and> (int 0 + 1) mod gradient_accumulation_steps
        (demo_args\<lparr>gradient_accumulation_steps := 2, do_eval := False\<rparr>) \<noteq> 0
   \<and> int 0 \<noteq> int (train_dataloader demo_locals) - 1"
proof -
  have due: "(int 1 + 1) mod gradient_accumulation_steps demo_args = 0"
    by (simp add: demo_args_def)
  have idle: "(int 0 + 1) mod gradient_accumulation_steps
                (demo_args\<lparr>gradient_accumulation_steps := 2, do_eval := False\<rparr>) \<noteq> 0"
    "int 0 \<noteq> int (train_dataloader demo_locals) - 1"
    by (simp_all add: demo_locals_def)
  from micro_batch_global_step [OF demo_micro_batch] due
  have "global_step demo_after_second = global_step demo_after_first + 1
        \<and> optimizer_steps demo_after_second = Suc (optimizer_steps demo_after_first)"
    by blast
  moreover from micro_batch_global_step [OF demo_micro_batch_accumulating] idle
  have "global_step demo_after_first = global_step demo_after_first
        \<and> optimizer_steps demo_after_first = optimizer_steps demo_after_first"
    by blast
  ultimately show ?thesis
    using demo_micro_batch demo_micro_batch_accumulating due idle by blast
qed

theorem stop_at_max_train_steps_witness:
  "max_train_steps demo_args = Some 2
   \<and> micro_batch demo_collaborators demo_args demo_locals 0 1 demo_after_first
     = Inr demo_after_second
   \<and> 2 \<le> global_step demo_after_second
   \<and> bind_err
       (batch_loop demo_collaborators demo_args demo_locals 0 (1 # [2, 3]) demo_after_first)
       (epoch_loop demo_collaborators demo_args demo_locals [1, 2])
     = Inr (demo_after_second\<lparr>wrap := True\<rparr>)
   \<and> training demo_collaborators demo_args demo_locals {} []
     = Inr (demo_after_second\<lparr>wrap := True\<rparr>)
   \<and> int (optimizer_steps (demo_after_second\<lparr>wrap := True\<rparr>)) \<le> 2"
proof -
  have mx: "max_train_steps demo_args = Some 2" by (simp add: demo_args_def)
  have ge: "2 \<le> global_step demo_after_second" by (simp add: demo_after_second_def)
  from stop_at_max_train_steps [OF mx, where C = demo_collaborators and loc = demo_locals
      and epoch = 0 and step = 1 and s = demo_after_first and s' = demo_after_second
      and steps = "[2, 3]" and epochs = "[1, 2]" and files = "{}" and results = "[]"
      and t = "demo_after_second\<lparr>wrap := True\<rparr>"]
  show ?thesis using mx demo_micro_batch demo_training ge by simp
qed

section \<open>Properties of the orchestrator\<close>

lemma then_calls_fst:
  assumes "c \<in> set (fst (then_calls m f))"
  shows "c \<in> set (fst m) \<or> (\<exists>x. snd m = Inr x \<and> c \<in> set (fst (f x)))"
  using assms by (auto simp: then_calls_def split: prod.splits sum.splits)

lemma then_calls_Inr:
  assumes "snd (then_calls m f) = Inr y"
  shows "\<exists>x. snd m = Inr x \<and> snd (f x) = Inr y"
  using assms by (auto simp: then_calls_def split: prod.splits sum.splits)


lemma then_calls_raises: "then_calls (cs, Inl e) f = (cs, Inl e)"
  by (simp add: then_calls_def)



lemma build_processors_lookup:
  assumes "build_processors ts = Inr ps" and "map_of ps t = Some p"
  shows "map_of processors_all t = Some p"
  using assms
  by (induction ts arbitrary: ps)
     (auto simp: bind_err_def split: option.splits sum.splits if_splits)

lemma build_processors_error:
  assumes "build_processors ts = Inl e"
  shows "\<exists>t. e = KeyError t"
  using assms
  by (induction ts) (auto simp: bind_err_def split: option.splits sum.splits)

lemma startup_result:
  assumes "startup a = Inr (a1, ps)"
  shows "a1 = a\<lparr>train_batch_size := train_batch_size a div gradient_accumulation_steps a\<rparr>"
    and "build_processors (dict_keys (task_names a)) = Inr ps"
    and "check_task_names (task_names a) = Inr ()"
  using assms
  by (auto simp: startup_def Let_def bind_err_def split: if_splits sum.splits)






















text \<open>The run of \<^verbatim>\<open>main\<close> on the concrete collaborators, evaluated step by step.\<close>

lemma demo_startup:
  "startup demo_args
   = Inr (demo_args, [(''tnews'', TnewsProcessor), (''sighan'', SighanProcessor)])"
  by (simp add: startup_def demo_args_def Let_def bind_err_def processors_all_def
      dict_keys_def)

lemma demo_train_features:
  "train_features demo_collaborators demo_args
     [(''tnews'', TnewsProcessor), (''sighan'', SighanProcessor)]
   = ([GetTrainExamples TnewsProcessor ''data/tnews'' ''base'',
       SeqConvert [(''x1'', ''a''), (''x2'', ''b'')] [''a'', ''b''] 64,
       GetTrainExamples SighanProcessor ''data/sighan'' ''hybrid'',
       CscConvert [(''x1'', ''a''), (''x2'', ''b'')] 64],
      Inr [0, 0, 1, 1])"
  by (simp add: demo_args_def demo_collaborators_def train_on_dataset_def path_join_def
      then_calls_def convert_examples_def task_class_csc_def task_class_seq_def
      label_list_of_def dict_keys_def Let_def)

lemma demo_step_budget: "step_budget demo_args 4 = Inr demo_args"
proof -
  have "\<lceil>(1 :: real) / 2\<rceil> = 1" by (rule ceiling_unique) simp_all
  then show ?thesis by (simp add: step_budget_def demo_args_def Let_def)
qed

lemma demo_load_eval_data:
  "load_eval_data demo_collaborators demo_args
     [(''tnews'', TnewsProcessor), (''sighan'', SighanProcessor)] ''15''
   = ([GetTestExamples TnewsProcessor ''data/tnews'' ''15'',
       SeqConvert [(''y1'', ''b'')] [''b''] 64],
      Inr (''tnews'', 1))"
  by (simp add: load_eval_data_def demo_args_def demo_collaborators_def path_join_def
      then_calls_def convert_examples_def task_class_csc_def task_class_seq_def
      label_list_of_def dict_keys_def Let_def bind_err_def)


lemma demo_train_phase:
  "train_phase demo_collaborators demo_args
     [(''tnews'', TnewsProcessor), (''sighan'', SighanProcessor)] {} []
   = ([GetTrainExamples TnewsProcessor ''data/tnews'' ''base'',
       SeqConvert [(''x1'', ''a''), (''x2'', ''b'')] [''a'', ''b''] 64,
       GetTrainExamples SighanProcessor ''data/sighan'' ''hybrid'',
       CscConvert [(''x1'', ''a''), (''x2'', ''b'')] 64,
       GetTestExamples TnewsProcessor ''data/tnews'' ''15'',
       SeqConvert [(''y1'', ''b'')] [''b''] 64],
      Inr (False, {''step-I.bin'', ''step-II.bin''}, [SeqLine 1 50 50, SeqLine 2 50 50]))"
proof -
  have sb: "step_budget demo_args (Suc (Suc (Suc (Suc 0)))) = Inr demo_args"
    using demo_step_budget by (simp add: eval_nat_numeral)
  have len: "dataloader_len demo_collaborators n b = Inr n" for n b
    by (simp add: demo_collaborators_def)
  have flags: "\<not> print_para_names demo_args" "do_eval demo_args" "eval_on demo_args = ''15''"
    by (simp_all add: demo_args_def)
  have loc: "\<lparr>task_name = ''tnews'', train_dataloader = Suc (Suc (Suc (Suc 0))),
               eval_dataloader = Suc 0\<rparr> = demo_locals"
    by (simp add: demo_locals_def eval_nat_numeral)
  have fin: "storage (demo_after_second\<lparr>wrap := True\<rparr>) = {''step-I.bin'', ''step-II.bin''}"
    "eval_results (demo_after_second\<lparr>wrap := True\<rparr>) = [SeqLine 1 50 50, SeqLine 2 50 50]"
    by (simp_all add: demo_after_second_def)
  show ?thesis
    unfolding train_phase_def demo_train_features
    by (simp add: then_calls_def len sb flags demo_load_eval_data loc
        demo_training bind_err_def fin)
qed

lemma demo_test_phase:
  "test_phase demo_collaborators demo_args
     [(''tnews'', TnewsProcessor), (''sighan'', SighanProcessor)] files results
   = ([GetTestExamples TnewsProcessor ''data/tnews'' ''15'',
       SeqConvert [(''y1'', ''b'')] [''b''] 64],
      Inr (files, results @ [SeqLine (- 1) 50 50]))"
proof -
  have t: "test_on demo_args = ''15''" by (simp add: demo_args_def)
  have r: "test_round demo_collaborators ''tnews'' (Suc 0) results
           = Inr (results @ [SeqLine (- 1) 50 50])"
    by (simp add: test_round_def demo_collaborators_def task_class_csc_def
        task_class_seq_def Let_def)
  show ?thesis
    unfolding test_phase_def t demo_load_eval_data
    by (simp add: then_calls_def r bind_err_def)
qed

lemma demo_main:
  "main demo_collaborators demo_args {} []
   = ([GetTrainExamples TnewsProcessor ''data/tnews'' ''base'',
       SeqConvert [(''x1'', ''a''), (''x2'', ''b'')] [''a'', ''b''] 64,
       GetTrainExamples SighanProcessor ''data/sighan'' ''hybrid'',
       CscConvert [(''x1'', ''a''), (''x2'', ''b'')] 64,
       GetTestExamples TnewsProcessor ''data/tnews'' ''15'',
       SeqConvert [(''y1'', ''b'')] [''b''] 64,
       GetTestExamples TnewsProcessor ''data/tnews'' ''15'',
       SeqConvert [(''y1'', ''b'')] [''b''] 64],
      Inr ({''step-I.bin'', ''step-II.bin''},
           [SeqLine 1 50 50, SeqLine 2 50 50, SeqLine (- 1) 50 50]))"
proof -
  have flags: "do_train demo_args" "do_test demo_args" by (simp_all add: demo_args_def)
  show ?thesis
    unfolding main_def demo_startup
    by (simp add: then_calls_def flags demo_train_phase demo_test_phase)
qed

text \<open>The calls a run makes.\<close>

lemma fst_then_calls:
  "fst (then_calls m f) = fst m @ (case snd m of Inl e \<Rightarrow> [] | Inr x \<Rightarrow> fst (f x))"
  by (auto simp: then_calls_def split: prod.splits sum.splits)

lemma convert_examples_calls:
  assumes "c \<in> set (fst (convert_examples C a t exs))"
  shows "(c = CscConvert exs (max_seq_length a) \<and> t \<in> set task_class_csc)
       \<or> (c = SeqConvert exs (get_label_list C exs) (max_seq_length a)
          \<and> t \<notin> set task_class_csc \<and> t \<in> set task_class_seq)"
  using assms by (auto simp: convert_examples_def Let_def split: if_splits)

lemma train_features_calls:
  assumes "c \<in> set (fst (train_features C a ps))"
  shows "\<exists>t p s. (t, p) \<in> set ps \<and> map_of (train_on_dataset a) t = Some s
           \<and> (c = GetTrainExamples p (path_join (data_dir a) t) s
              \<or> c \<in> set (fst (convert_examples C a t
                                  (get_train_examples C p (path_join (data_dir a) t) s))))"
  using assms
proof (induction ps)
  case Nil
  then show ?case by simp
next
  case (Cons tp ps)
  obtain t p where tp: "tp = (t, p)" by (cases tp)
  show ?case
  proof (cases "map_of (train_on_dataset a) t")
    case None
    with Cons.prems tp show ?thesis by simp
  next
    case (Some s)
    let ?ex = "get_train_examples C p (path_join (data_dir a) t) s"
    from Cons.prems tp Some
    consider "c = GetTrainExamples p (path_join (data_dir a) t) s"
      | "c \<in> set (fst (convert_examples C a t ?ex))"
      | "c \<in> set (fst (train_features C a ps))"
      by (auto simp: Let_def fst_then_calls split: sum.splits)
    then show ?thesis
    proof cases
      case 1
      with tp Some show ?thesis by auto
    next
      case 2
      with tp Some show ?thesis by auto
    next
      case 3
      from Cons.IH [OF this] tp show ?thesis by auto
    qed
  qed
qed

lemma load_eval_data_calls:
  assumes "c \<in> set (fst (load_eval_data C a ps split))"
  shows "\<exists>t rest p. task_names a = t # rest \<and> map_of ps t = Some p
           \<and> (c = GetTestExamples p (path_join (data_dir a) t) split
              \<or> c \<in> set (fst (convert_examples C a t
                                  (get_test_examples C p (path_join (data_dir a) t) split))))"
  using assms
  by (auto simp: load_eval_data_def Let_def fst_then_calls
      split: list.splits option.splits sum.splits)

lemma load_eval_data_result:
  assumes "snd (load_eval_data C a ps split) = Inr (t, n)"
  shows "\<exists>rest. task_names a = t # rest"
  using assms
  by (auto simp: load_eval_data_def Let_def bind_err_def
      split: list.splits option.splits sum.splits dest!: then_calls_Inr)

lemma step_budget_fields:
  assumes "step_budget a len = Inr a2"
  shows "task_names a2 = task_names a" and "data_dir a2 = data_dir a"
    and "eval_on a2 = eval_on a" and "test_on a2 = test_on a"
    and "max_seq_length a2 = max_seq_length a" and "do_eval a2 = do_eval a"
  using assms
  by (auto simp: step_budget_def Let_def split: option.splits if_splits)

lemma train_phase_calls:
  assumes "c \<in> set (fst (train_phase C a ps files results))"
  shows "c \<in> set (fst (train_features C a ps))
       \<or> (\<exists>a2 len. step_budget a len = Inr a2
              \<and> c \<in> set (fst (load_eval_data C a2 ps (eval_on a2))))"
  using assms unfolding train_phase_def
  by (auto split: if_splits prod.splits dest!: then_calls_fst; blast)

lemma test_phase_calls:
  assumes "c \<in> set (fst (test_phase C a ps files results))"
  shows "c \<in> set (fst (load_eval_data C a ps (test_on a)))"
  using assms unfolding test_phase_def
  by (auto split: prod.splits dest!: then_calls_fst)

lemma main_calls:
  assumes "c \<in> set (fst (main C a files results))"
  obtains (train) a1 ps where "startup a = Inr (a1, ps)"
      and "c \<in> set (fst (train_features C a1 ps))"
    | (eval) a1 ps a2 len where "startup a = Inr (a1, ps)"
      and "step_budget a1 len = Inr a2"
      and "c \<in> set (fst (load_eval_data C a2 ps (eval_on a2)))"
    | (test) a1 ps where "startup a = Inr (a1, ps)"
      and "c \<in> set (fst (load_eval_data C a1 ps (test_on a1)))"
proof -
  from assms [unfolded main_def] obtain a1 ps where st: "startup a = Inr (a1, ps)"
    and "c \<in> set (fst (train_phase C a1 ps files results))
         \<or> (\<exists>files1 results1. c \<in> set (fst (test_phase C a1 ps files1 results1)))"
    by (auto split: if_splits prod.splits dest!: then_calls_fst; blast)
  then show thesis
    using train test eval by (blast dest: train_phase_calls test_phase_calls)
qed


lemma build_processors_set:
  assumes "build_processors ts = Inr ps" and "(t, p) \<in> set ps"
  shows "t \<in> set ts \<and> map_of processors_all t = Some p"
  using assms
  by (induction ts arbitrary: ps)
     (auto simp: bind_err_def split: option.splits sum.splits)

lemma startup_fields:
  assumes "startup a = Inr (a1, ps)"
  shows "task_names a1 = task_names a" and "data_dir a1 = data_dir a"
    and "eval_on a1 = eval_on a" and "test_on a1 = test_on a"
    and "max_seq_length a1 = max_seq_length a" and "do_eval a1 = do_eval a"
    and "train_on_dataset a1 = train_on_dataset a"
  using startup_result(1) [OF assms] by (simp_all add: train_on_dataset_def)

lemma startup_processors:
  assumes "startup a = Inr (a1, ps)"
  shows "(t, p) \<in> set ps \<Longrightarrow> t \<in> set (task_names a) \<and> map_of processors_all t = Some p"
    and "map_of ps t = Some p \<Longrightarrow> map_of processors_all t = Some p"
proof -
  note b = startup_result(2) [OF assms]
  show "t \<in> set (task_names a) \<and> map_of processors_all t = Some p" if "(t, p) \<in> set ps"
    using build_processors_set [OF b that] by (simp add: dict_keys_def)
  show "map_of processors_all t = Some p" if "map_of ps t = Some p"
    using b that by (rule build_processors_lookup)
qed

text \<open>
  Every call of a reader or converter that a run makes: a reader of training examples
  and the conversion of what it returned, for a configured task; or the reader of test
  examples and the conversion of what it returned, for the first task, on the split
  \<^verbatim>\<open>eval_on\<close> or \<^verbatim>\<open>test_on\<close>.
\<close>

lemma main_calls_cases:
  assumes "c \<in> set (fst (main C a files results))"
  shows "(\<exists>t p s. t \<in> set (task_names a) \<and> map_of processors_all t = Some p
            \<and> map_of (train_on_dataset a) t = Some s
            \<and> (c = GetTrainExamples p (path_join (data_dir a) t) s
               \<or> c = CscConvert (get_train_examples C p (path_join (data_dir a) t) s)
                       (max_seq_length a) \<and> t \<in> set task_class_csc
               \<or> c = SeqConvert (get_train_examples C p (path_join (data_dir a) t) s)
                       (get_label_list C (get_train_examples C p (path_join (data_dir a) t) s))
                       (max_seq_length a) \<and> t \<notin> set task_class_csc))
       \<or> (\<exists>t rest p split. task_names a = t # rest \<and> map_of processors_all t = Some p
            \<and> (split = eval_on a \<or> split = test_on a)
            \<and> (c = GetTestExamples p (path_join (data_dir a) t) split
               \<or> c = CscConvert (get_test_examples C p (path_join (data_dir a) t) split)
                       (max_seq_length a) \<and> t \<in> set task_class_csc
               \<or> c = SeqConvert (get_test_examples C p (path_join (data_dir a) t) split)
                       (get_label_list C (get_test_examples C p (path_join (data_dir a) t) split))
                       (max_seq_length a) \<and> t \<notin> set task_class_csc))"
  using assms
proof (cases rule: main_calls)
  case (train a1 ps)
  note f = startup_fields [OF train(1)]
  from train_features_calls [OF train(2)] obtain t p s where
    tp: "(t, p) \<in> set ps" and s: "map_of (train_on_dataset a) t = Some s"
    and c: "c = GetTrainExamples p (path_join (data_dir a) t) s
            \<or> c \<in> set (fst (convert_examples C a1 t
                                (get_train_examples C p (path_join (data_dir a) t) s)))"
    unfolding f by blast
  from startup_processors(1) [OF train(1) tp]
  have "t \<in> set (task_names a)" "map_of processors_all t = Some p" by simp_all
  with s c show ?thesis
    by (auto dest!: convert_examples_calls simp: f)
next
  case (eval a1 ps a2 len)
  note f = startup_fields [OF eval(1)] and g = step_budget_fields [OF eval(2)]
  from load_eval_data_calls [OF eval(3)] obtain t rest p where
    tn: "task_names a = t # rest" and p: "map_of ps t = Some p"
    and c: "c = GetTestExamples p (path_join (data_dir a) t) (eval_on a)
            \<or> c \<in> set (fst (convert_examples C a2 t
                                (get_test_examples C p (path_join (data_dir a) t) (eval_on a))))"
    unfolding g f by blast
  from startup_processors(2) [OF eval(1) p] have "map_of processors_all t = Some p" .
  with tn c have "\<exists>t rest p split. task_names a = t # rest \<and> map_of processors_all t = Some p
            \<and> (split = eval_on a \<or> split = test_on a)
            \<and> (c = GetTestExamples p (path_join (data_dir a) t) split
               \<or> c = CscConvert (get_test_examples C p (path_join (data_dir a) t) split)
                       (max_seq_length a) \<and> t \<in> set task_class_csc
               \<or> c = SeqConvert (get_test_examples C p (path_join (data_dir a) t) split)
                       (get_label_list C (get_test_examples C p (path_join (data_dir a) t) split))
                       (max_seq_length a) \<and> t \<notin> set task_class_csc)"
    by (auto dest!: convert_examples_calls simp: f g)
  then show ?thesis ..
next
  case (test a1 ps)
  note f = startup_fields [OF test(1)]
  from load_eval_data_calls [OF test(2)] obtain t rest p where
    tn: "task_names a = t # rest" and p: "map_of ps t = Some p"
    and c: "c = GetTestExamples p (path_join (data_dir a) t) (test_on a)
            \<or> c \<in> set (fst (convert_examples C a1 t
                                (get_test_examples C p (path_join (data_dir a) t) (test_on a))))"
    unfolding f by blast
  from startup_processors(2) [OF test(1) p] have "map_of processors_all t = Some p" .
  with tn c have "\<exists>t rest p split. task_names a = t # rest \<and> map_of processors_all t = Some p
            \<and> (split = eval_on a \<or> split = test_on a)
            \<and> (c = GetTestExamples p (path_join (data_dir a) t) split
               \<or> c = CscConvert (get_test_examples C p (path_join (data_dir a) t) split)
                       (max_seq_length a) \<and> t \<in> set task_class_csc
               \<or> c = SeqConvert (get_test_examples C p (path_join (data_dir a) t) split)
                       (get_label_list C (get_test_examples C p (path_join (data_dir a) t) split))
                       (max_seq_length a) \<and> t \<notin> set task_class_csc)"
    by (auto dest!: convert_examples_calls simp: f)
  then show ?thesis ..
qed


text \<open>
  Claim C7 says that the label vocabulary is built once, from the training label set,
  and that the same mapping converts the evaluation and the test examples. Lines 269 and
  478 call \<^verbatim>\<open>InputExample.get_label_list\<close> again, on the evaluation and on the test
  examples. In the run below the training examples of \<^verbatim>\<open>tnews\<close> carry the labels \<open>a\<close>
  and \<open>b\<close> and its test examples only \<open>b\<close>: the training features are converted with
  the list \<open>[a, b]\<close>, the evaluation and test features with the list \<open>[b]\<close>, in which
  \<open>b\<close> has another index.
\<close>

theorem label_list_not_reused:
  "fst (main demo_collaborators demo_args {} [])
     = [GetTrainExamples TnewsProcessor ''data/tnews'' ''base'',
        SeqConvert [(''x1'', ''a''), (''x2'', ''b'')] [''a'', ''b''] 64,
        GetTrainExamples SighanProcessor ''data/sighan'' ''hybrid'',
        CscConvert [(''x1'', ''a''), (''x2'', ''b'')] 64,
        GetTestExamples TnewsProcessor ''data/tnews'' ''15'',
        SeqConvert [(''y1'', ''b'')] [''b''] 64,
        GetTestExamples TnewsProcessor ''data/tnews'' ''15'',
        SeqConvert [(''y1'', ''b'')] [''b''] 64]
   \<and> get_label_list demo_collaborators
        (get_train_examples demo_collaborators TnewsProcessor ''data/tnews'' ''base'')
     = [''a'', ''b'']
   \<and> get_label_list demo_collaborators
        (get_test_examples demo_collaborators TnewsProcessor ''data/tnews'' ''15'')
     = [''b'']
   \<and> [''b''] \<noteq> [''a'', ''b'']"
proof -
  have "get_label_list demo_collaborators
          (get_train_examples demo_collaborators TnewsProcessor ''data/tnews'' ''base'')
        = [''a'', ''b'']"
    and "get_label_list demo_collaborators
          (get_test_examples demo_collaborators TnewsProcessor ''data/tnews'' ''15'')
        = [''b'']"
    by (simp_all add: demo_collaborators_def label_list_of_def dict_keys_def)
  then show ?thesis by (simp add: demo_main)
qed

text \<open>
  Claim C7, amended. In every run, every conversion of examples of a SEQ-family task
  is given the label list that \<^verbatim>\<open>get_label_list\<close> returns for the very examples being
  converted: the training examples of a configured task for the training features, the
  \<^verbatim>\<open>eval_on\<close> examples of the first task for the evaluation rounds, the \<^verbatim>\<open>test_on\<close>
  examples of the first task for the test. The list is rebuilt for each split, not
  carried over from training.
\<close>

theorem label_list_rebuilt:
  assumes "SeqConvert exs labs n \<in> set (fst (main C a files results))"
  shows "labs = get_label_list C exs \<and> n = max_seq_length a
       \<and> ((\<exists>t p s. t \<in> set (task_names a) \<and> map_of processors_all t = Some p
               \<and> map_of (train_on_dataset a) t = Some s
               \<and> exs = get_train_examples C p (path_join (data_dir a) t) s)
          \<or> (\<exists>t rest p split. task_names a = t # rest \<and> map_of processors_all t = Some p
               \<and> (split = eval_on a \<or> split = test_on a)
               \<and> exs = get_test_examples C p (path_join (data_dir a) t) split))"
  using main_calls_cases [OF assms] by (elim disjE exE conjE) auto

theorem label_list_rebuilt_witness:
  "SeqConvert [(''y1'', ''b'')] [''b''] 64 \<in> set (fst (main demo_collaborators demo_args {} []))
   \<and> [''b''] = get_label_list demo_collaborators [(''y1'', ''b'')]
   \<and> 64 = max_seq_length demo_args"
proof -
  have m: "SeqConvert [(''y1'', ''b'')] [''b''] 64
           \<in> set (fst (main demo_collaborators demo_args {} []))"
    by (simp add: demo_main)
  from label_list_rebuilt [OF m] m show ?thesis by blast
qed


text \<open>The lines a run appends to the results file.\<close>

lemma evaluation_results:
  assumes "evaluation C loc epoch step s = Inr s'"
  shows "\<exists>l. eval_results s' = eval_results s @ [l]
           \<and> is_csc_line l = (task_name loc \<in> set task_class_csc)"
  using assms
  by (auto simp: evaluation_def Let_def bind_err_def
      split: if_splits sum.splits prod.splits dest: retain_checkpoint_frame(4))

lemma micro_batch_results:
  assumes "micro_batch C a loc epoch step s = Inr s'"
  shows "\<exists>new. eval_results s' = eval_results s @ new
           \<and> (\<forall>l\<in>set new. do_eval a \<and> is_csc_line l = (task_name loc \<in> set task_class_csc))"
proof -
  from assms obtain due ev where
    "update_due a loc step = Inr due"
    and ev: "eval_due a (if due then optimizer_update s else s) = Inr ev"
    and s': "(if ev then evaluation C loc epoch step (if due then optimizer_update s else s)
              else Inr (if due then optimizer_update s else s)) = Inr s'"
    by (auto simp: micro_batch_def bind_err_def Let_def split: option.splits sum.splits)
  have same: "eval_results (if due then optimizer_update s else s) = eval_results s"
    by (simp add: optimizer_update_def)
  show ?thesis
  proof (cases ev)
    case True
    with ev have "do_eval a" by (auto simp: eval_due_def split: if_splits)
    moreover from True s' obtain l where
      "eval_results s' = eval_results s @ [l]"
      "is_csc_line l = (task_name loc \<in> set task_class_csc)"
      using same by (auto dest: evaluation_results)
    ultimately show ?thesis by auto
  next
    case False
    with s' same show ?thesis by auto
  qed
qed

lemma batch_loop_results:
  assumes "batch_loop C a loc epoch steps s = Inr s'"
  shows "\<exists>new. eval_results s' = eval_results s @ new
           \<and> (\<forall>l\<in>set new. do_eval a \<and> is_csc_line l = (task_name loc \<in> set task_class_csc))"
  using assms
proof (induction steps arbitrary: s)
  case Nil
  then show ?case by simp
next
  case (Cons step steps)
  from Cons.prems obtain s1 where mb: "micro_batch C a loc epoch step s = Inr s1"
    and rest: "s' = s1\<lparr>wrap := True\<rparr> \<or> batch_loop C a loc epoch steps s1 = Inr s'"
    by (auto simp: bind_err_def split: sum.splits if_splits)
  from micro_batch_results [OF mb] obtain new1 where
    n1: "eval_results s1 = eval_results s @ new1"
    "\<forall>l\<in>set new1. do_eval a \<and> is_csc_line l = (task_name loc \<in> set task_class_csc)"
    by blast
  from rest show ?case
  proof
    assume "s' = s1\<lparr>wrap := True\<rparr>"
    with n1 show ?thesis by auto
  next
    assume "batch_loop C a loc epoch steps s1 = Inr s'"
    from Cons.IH [OF this] obtain new2 where
      "eval_results s' = eval_results s1 @ new2"
      "\<forall>l\<in>set new2. do_eval a \<and> is_csc_line l = (task_name loc \<in> set task_class_csc)"
      by blast
    with n1 have "eval_results s' = eval_results s @ (new1 @ new2)"
      "\<forall>l\<in>set (new1 @ new2).
         do_eval a \<and> is_csc_line l = (task_name loc \<in> set task_class_csc)"
      by auto
    then show ?thesis by blast
  qed
qed

lemma epoch_loop_results:
  assumes "epoch_loop C a loc epochs s = Inr s'"
  shows "\<exists>new. eval_results s' = eval_results s @ new
           \<and> (\<forall>l\<in>set new. do_eval a \<and> is_csc_line l = (task_name loc \<in> set task_class_csc))"
  using assms
proof (induction epochs arbitrary: s)
  case Nil
  then show ?case by simp
next
  case (Cons epoch epochs)
  show ?case
  proof (cases "wrap s")
    case True
    with Cons.prems show ?thesis by simp
  next
    case False
    with Cons.prems obtain s1 where
      bl: "batch_loop C a loc epoch [0..<train_dataloader loc] s = Inr s1"
      and rest: "epoch_loop C a loc epochs s1 = Inr s'"
      by (auto simp: bind_err_def split: sum.splits)
    from batch_loop_results [OF bl] obtain new1 where
      n1: "eval_results s1 = eval_results s @ new1"
      "\<forall>l\<in>set new1. do_eval a \<and> is_csc_line l = (task_name loc \<in> set task_class_csc)"
      by blast
    from Cons.IH [OF rest] obtain new2 where
      "eval_results s' = eval_results s1 @ new2"
      "\<forall>l\<in>set new2. do_eval a \<and> is_csc_line l = (task_name loc \<in> set task_class_csc)"
      by blast
    with n1 have "eval_results s' = eval_results s @ (new1 @ new2)"
      "\<forall>l\<in>set (new1 @ new2).
         do_eval a \<and> is_csc_line l = (task_name loc \<in> set task_class_csc)"
      by auto
    then show ?thesis by blast
  qed
qed

lemma training_results:
  assumes "training C a loc files results = Inr s"
  shows "\<exists>new. eval_results s = results @ new
           \<and> (\<forall>l\<in>set new. do_eval a \<and> is_csc_line l = (task_name loc \<in> set task_class_csc))"
proof -
  from assms have
    "epoch_loop C a loc [0..<nat (py_int (num_train_epochs a))] (initial_state files results)
     = Inr s"
    by (auto simp: training_def split: option.splits)
  from epoch_loop_results [OF this] show ?thesis by (simp add: initial_state_def)
qed

lemma train_phase_results:
  assumes "snd (train_phase C a ps files results) = Inr (returned, files1, results1)"
  shows "\<exists>new. results1 = results @ new
           \<and> (\<forall>l\<in>set new. \<exists>t rest. task_names a = t # rest
                 \<and> is_csc_line l = (t \<in> set task_class_csc))"
proof -
  from assms [unfolded train_phase_def]
  consider "results1 = results"
    | a2 len t n s where "step_budget a len = Inr a2"
        "do_eval a2" "snd (load_eval_data C a2 ps (eval_on a2)) = Inr (t, n)"
        "training C a2 \<lparr>task_name = t, train_dataloader = len, eval_dataloader = n\<rparr>
           files results = Inr s"
        "results1 = eval_results s"
    | a2 len t n s where "step_budget a len = Inr a2" "\<not> do_eval a2"
        "training C a2 \<lparr>task_name = t, train_dataloader = len, eval_dataloader = n\<rparr>
           files results = Inr s"
        "results1 = eval_results s"
    by (auto simp: bind_err_def split: if_splits sum.splits prod.splits
        dest!: then_calls_Inr; blast)
  then show ?thesis
  proof cases
    case 1
    then show ?thesis by simp
  next
    case 2
    from load_eval_data_result [OF 2(3)] obtain rest where "task_names a2 = t # rest" ..
    with step_budget_fields(1) [OF 2(1)] have tn: "task_names a = t # rest" by simp
    from training_results [OF 2(4)] 2(5) tn show ?thesis by auto
  next
    case 3
    from training_results [OF 3(3)] 3(2,4) show ?thesis by auto
  qed
qed

lemma test_round_results:
  assumes "test_round C t n results = Inr results'"
  shows "\<exists>l. results' = results @ [l] \<and> is_csc_line l = (t \<in> set task_class_csc)"
  using assms
  by (auto simp: test_round_def Let_def split: if_splits prod.splits)

lemma test_phase_results:
  assumes "snd (test_phase C a ps files results) = Inr (files', results')"
  shows "\<exists>l t rest. results' = results @ [l] \<and> task_names a = t # rest
           \<and> is_csc_line l = (t \<in> set task_class_csc)"
proof -
  from assms [unfolded test_phase_def] obtain t n where
    "snd (load_eval_data C a ps (test_on a)) = Inr (t, n)"
    and "test_round C t n results = Inr results'"
    by (auto simp: bind_err_def split: sum.splits prod.splits dest!: then_calls_Inr)
  with load_eval_data_result [of C a ps "test_on a" t n] test_round_results [of C t n results results']
  show ?thesis by auto
qed

lemma main_results:
  assumes "snd (main C a files results) = Inr (files', results')"
  shows "\<exists>new. results' = results @ new
           \<and> (\<forall>l\<in>set new. \<exists>t rest. task_names a = t # rest
                 \<and> is_csc_line l = (t \<in> set task_class_csc))"
proof -
  from assms [unfolded main_def] obtain a1 ps returned files1 results1 where
    st: "startup a = Inr (a1, ps)"
    and tr: "(do_train a1 \<and> snd (train_phase C a1 ps files results)
                              = Inr (returned, files1, results1))
             \<or> results1 = results"
    and te: "results' = results1
             \<or> snd (test_phase C a1 ps files1 results1) = Inr (files', results')"
    by (auto split: if_splits prod.splits dest!: then_calls_Inr; blast)
  note f = startup_fields(1) [OF st]
  from tr have "\<exists>new. results1 = results @ new
           \<and> (\<forall>l\<in>set new. \<exists>t rest. task_names a = t # rest
                 \<and> is_csc_line l = (t \<in> set task_class_csc))"
    using train_phase_results [of C a1 ps files results returned files1 results1] f by auto
  then obtain new1 where n1: "results1 = results @ new1"
    "\<forall>l\<in>set new1. \<exists>t rest. task_names a = t # rest
        \<and> is_csc_line l = (t \<in> set task_class_csc)"
    by blast
  from te show ?thesis
  proof
    assume "results' = results1"
    with n1 show ?thesis by blast
  next
    assume "snd (test_phase C a1 ps files1 results1) = Inr (files', results')"
    from test_phase_results [OF this] f obtain l t rest where
      "results' = results1 @ [l]" "task_names a = t # rest"
      "is_csc_line l = (t \<in> set task_class_csc)"
      by auto
    with n1 have "results' = results @ (new1 @ [l])"
      "\<forall>l\<in>set (new1 @ [l]). \<exists>t rest. task_names a = t # rest
          \<and> is_csc_line l = (t \<in> set task_class_csc)"
      by auto
    then show ?thesis by blast
  qed
qed


text \<open>
  Claim C6. For every configuration with at least one task name: every call of the
  reader of evaluation or test examples that a run makes is for the first configured
  task (its processor, its directory, the split \<^verbatim>\<open>eval_on\<close> or \<^verbatim>\<open>test_on\<close>), whatever
  the number of tasks trained; and every line that a run which returns has appended to
  the results file, by an evaluation round or by the test, has the format of the family
  of the first task, the family that routes the decoding and the metrics.
\<close>

theorem first_task_only:
  assumes "task_names a \<noteq> []"
  shows "(\<forall>p d split. GetTestExamples p d split \<in> set (fst (main C a files results))
            \<longrightarrow> map_of processors_all (hd (task_names a)) = Some p
                \<and> d = path_join (data_dir a) (hd (task_names a))
                \<and> (split = eval_on a \<or> split = test_on a))
       \<and> (\<forall>files' results'. snd (main C a files results) = Inr (files', results')
            \<longrightarrow> (\<exists>new. results' = results @ new
                   \<and> (\<forall>l\<in>set new.
                         is_csc_line l = (hd (task_names a) \<in> set task_class_csc))))"
proof (intro conjI allI impI)
  fix p d split
  assume c: "GetTestExamples p d split \<in> set (fst (main C a files results))"
  from main_calls_cases [OF c]
  have "\<exists>t rest. task_names a = t # rest \<and> map_of processors_all t = Some p
          \<and> (split = eval_on a \<or> split = test_on a) \<and> d = path_join (data_dir a) t"
    by (elim disjE exE conjE) auto
  then show "map_of processors_all (hd (task_names a)) = Some p"
    and "d = path_join (data_dir a) (hd (task_names a))"
    and "split = eval_on a \<or> split = test_on a"
    by auto
next
  fix files' results'
  assume "snd (main C a files results) = Inr (files', results')"
  from main_results [OF this] obtain new where
    "results' = results @ new"
    "\<forall>l\<in>set new. \<exists>t rest. task_names a = t # rest
        \<and> is_csc_line l = (t \<in> set task_class_csc)"
    by blast
  then have "results' = results @ new
      \<and> (\<forall>l\<in>set new. is_csc_line l = (hd (task_names a) \<in> set task_class_csc))"
    by auto
  then show "\<exists>new. results' = results @ new
      \<and> (\<forall>l\<in>set new. is_csc_line l = (hd (task_names a) \<in> set task_class_csc))" ..
qed

theorem first_task_only_witness:
  "task_names demo_args \<noteq> []
   \<and> GetTestExamples TnewsProcessor ''data/tnews'' ''15''
       \<in> set (fst (main demo_collaborators demo_args {} []))
   \<and> map_of processors_all (hd (task_names demo_args)) = Some TnewsProcessor
   \<and> ''data/tnews'' = path_join (data_dir demo_args) (hd (task_names demo_args))
   \<and> snd (main demo_collaborators demo_args {} [])
     = Inr ({''step-I.bin'', ''step-II.bin''},
            [SeqLine 1 50 50, SeqLine 2 50 50, SeqLine (- 1) 50 50])
   \<and> is_csc_line (SeqLine 1 50 50) = (hd (task_names demo_args) \<in> set task_class_csc)
   \<and> is_csc_line (SeqLine 2 50 50) = (hd (task_names demo_args) \<in> set task_class_csc)
   \<and> is_csc_line (SeqLine (- 1) 50 50) = (hd (task_names demo_args) \<in> set task_class_csc)"
proof -
  have ne: "task_names demo_args \<noteq> []" by (simp add: demo_args_def)
  have m: "GetTestExamples TnewsProcessor ''data/tnews'' ''15''
           \<in> set (fst (main demo_collaborators demo_args {} []))"
    by (simp add: demo_main)
  have r: "snd (main demo_collaborators demo_args {} [])
           = Inr ({''step-I.bin'', ''step-II.bin''},
                  [SeqLine 1 50 50, SeqLine 2 50 50, SeqLine (- 1) 50 50])"
    by (simp add: demo_main)
  note t = first_task_only [OF ne, of demo_collaborators "{}" "[]"]
  from t m have "map_of processors_all (hd (task_names demo_args)) = Some TnewsProcessor"
    and "''data/tnews'' = path_join (data_dir demo_args) (hd (task_names demo_args))"
    by blast+
  moreover from t r obtain new where
    "[SeqLine 1 50 50, SeqLine 2 50 50, SeqLine (- 1) 50 50] = [] @ new"
    and "\<forall>l\<in>set new. is_csc_line l = (hd (task_names demo_args) \<in> set task_class_csc)"
    by blast
  then have
    "is_csc_line (SeqLine 1 50 50) = (hd (task_names demo_args) \<in> set task_class_csc)"
    "is_csc_line (SeqLine 2 50 50) = (hd (task_names demo_args) \<in> set task_class_csc)"
    "is_csc_line (SeqLine (- 1) 50 50) = (hd (task_names demo_args) \<in> set task_class_csc)"
    by auto
  ultimately show ?thesis using ne m r by blast
qed

end
